theory Spec2Isabelle
  imports Complex_Main
begin

section \<open>Numbers, files and sides\<close>

text \<open>
  The program is a React application (\<^verbatim>\<open>src/src/App.tsx\<close>, with an older variant of
  the same file in \<^verbatim>\<open>src/unnamed/part_000\<close>).  Component state (\<^verbatim>\<open>useState\<close>),
  mutable refs (\<^verbatim>\<open>useRef\<close>) and the few DOM properties the handlers touch
  (\<^verbatim>\<open>scrollTop\<close>) are fields of records; every handler is a function from the
  state of the render it closes over to the state after the batched updates.

  A JavaScript \<^verbatim>\<open>number\<close> is a \<^typ>\<open>real\<close>, the type the specification's data model
  gives to scales, offsets and scroll positions; \<^verbatim>\<open>Math.max\<close> and \<^verbatim>\<open>Math.min\<close> are
  \<^const>\<open>max\<close> and \<^const>\<open>min\<close>.  The handlers are written with exact sums and differences
  first; the zoom handlers are then repeated with the binary64 rounding of every \<^verbatim>\<open>+\<close> and
  \<^verbatim>\<open>-\<close>, for the statement that depends on it.  The value NaN is outside the model.
\<close>

type_synonym pdfFile = string

datatype side = Left | Right

section \<open>PDFViewer: the lazily rendered page list\<close>

text \<open>
  One entry of an \<^verbatim>\<open>IntersectionObserver\<close> callback.  The observed elements are the
  page placeholders, whose \<^verbatim>\<open>data-page-number\<close> attribute is \<^verbatim>\<open>index + 1\<close>;
  \<open>dataPageNumber\<close> is \<^verbatim>\<open>Number(entry.target.getAttribute('data-page-number'))\<close>.
\<close>

record entry =
  isIntersecting :: bool
  dataPageNumber :: nat

text \<open>
  \<^verbatim>\<open>entries.filter(e => e.isIntersecting).map(e => Number(...)).filter(Boolean)\<close>:
  \<^verbatim>\<open>Boolean\<close> drops the number 0.
\<close>

definition visible :: "entry list \<Rightarrow> nat list" where
  "visible entries =
     filter (\<lambda>n. n \<noteq> 0) (map dataPageNumber (filter isIntersecting entries))"

text \<open>
  \<^verbatim>\<open>[...new Set(xs)]\<close>: a \<^verbatim>\<open>Set\<close> keeps the first occurrence of every value, in
  insertion order.
\<close>

definition setAdd :: "nat list \<Rightarrow> nat \<Rightarrow> nat list" where
  "setAdd acc x = (if x \<in> set acc then acc else acc @ [x])"

definition newSet :: "nat list \<Rightarrow> nat list" where
  "newSet xs = foldl setAdd [] xs"

text \<open>
  The state updater of the callback:
  \<^verbatim>\<open>prev => [...new Set([...prev, ...visible])].sort((a, b) => a - b)\<close>.
  The comparator orders numbers increasingly and the sort is stable, as \<^const>\<open>sort\<close> is.
\<close>

definition setVisiblePages :: "entry list \<Rightarrow> nat list \<Rightarrow> nat list" where
  "setVisiblePages entries prev = sort (newSet (prev @ visible entries))"

text \<open>
  \<open>visiblePages\<close> starts as \<^verbatim>\<open>[]\<close> and is written by the observer callback only; this is
  its value after a sequence of callbacks.
\<close>

definition visiblePagesAfter :: "entry list list \<Rightarrow> nat list" where
  "visiblePagesAfter callbacks = foldl (\<lambda>prev entries. setVisiblePages entries prev) [] callbacks"

text \<open>
  The viewer maps over the page numbers 1 to \<open>numPages\<close> and renders the \<^verbatim>\<open>Page\<close> of a
  number when \<^verbatim>\<open>visiblePages.includes(pageNumber)\<close>; \<open>numPages\<close> is set when the document
  has loaded.
\<close>

definition pageRendered :: "nat \<Rightarrow> nat list \<Rightarrow> nat \<Rightarrow> bool" where
  "pageRendered numPages visiblePages pageNumber =
     (1 \<le> pageNumber \<and> pageNumber \<le> numPages \<and> pageNumber \<in> set visiblePages)"

section \<open>App: documents, zoom and scroll linking\<close>

text \<open>
  The state of \<^verbatim>\<open>App\<close> that the document, zoom and scroll handlers read or write.
  \<open>isSyncing\<close> is the ref \<^verbatim>\<open>isSyncing.current\<close>.  \<open>leftScrollTop\<close> and
  \<open>rightScrollTop\<close> are the \<^verbatim>\<open>scrollTop\<close> of the two primary scroll containers;
  a container exists exactly when its side holds a file, since \<^verbatim>\<open>PDFViewer\<close> renders
  the element carrying \<^verbatim>\<open>containerRef\<close> only when \<^verbatim>\<open>file\<close> is not null.
  \<open>timers\<close> counts the pending \<^verbatim>\<open>setTimeout(() => (isSyncing.current = false), 0)\<close>
  callbacks, and \<open>writes\<close> logs every assignment the scroll-linking handlers make to a
  primary container's \<^verbatim>\<open>scrollTop\<close>, oldest first.  \<open>overlayLeftScrollTop\<close> and
  \<open>overlayRightScrollTop\<close> are the \<^verbatim>\<open>scrollTop\<close> of the two mirror containers of the
  contrast panel (\<^verbatim>\<open>overlayLeftRef\<close>, \<^verbatim>\<open>overlayRightRef\<close>).  A record field holds the
  value a handler assigns; the browser's own clamping of \<^verbatim>\<open>scrollTop\<close> to the scrollable
  range is not modelled.
\<close>

record summaryItem =
  label :: string
  left :: "string option"
  right :: "string option"

record app =
  leftPDF :: "pdfFile option"
  rightPDF :: "pdfFile option"
  leftScale :: real
  rightScale :: real
  syncZoom :: bool
  syncScroll :: bool
  zoomDiff :: real
  scrollDiff :: real
  leftInputKey :: nat
  rightInputKey :: nat
  summary :: "summaryItem list"
  isSyncing :: bool
  leftScrollTop :: real
  rightScrollTop :: real
  timers :: nat
  writes :: "(side \<times> real) list"
  showContrast :: bool
  frontDoc :: side
  overlayLeftScrollTop :: real
  overlayRightScrollTop :: real

text \<open>The initial values of the \<^verbatim>\<open>useState\<close> and \<^verbatim>\<open>useRef\<close> calls; \<open>now\<close> is \<^verbatim>\<open>Date.now()\<close>.\<close>

definition initialApp :: "nat \<Rightarrow> app" where
  "initialApp now =
     \<lparr> leftPDF = None, rightPDF = None, leftScale = 1, rightScale = 1,
       syncZoom = True, syncScroll = False, zoomDiff = 0, scrollDiff = 0,
       leftInputKey = now, rightInputKey = now, summary = [], isSyncing = False,
       leftScrollTop = 0, rightScrollTop = 0, timers = 0, writes = [],
       showContrast = False, frontDoc = Left,
       overlayLeftScrollTop = 0, overlayRightScrollTop = 0 \<rparr>"

text \<open>\<^verbatim>\<open>leftContainerRef.current\<close> and \<^verbatim>\<open>rightContainerRef.current\<close> are not null.\<close>

definition leftContainerRef :: "app \<Rightarrow> bool" where
  "leftContainerRef s = (leftPDF s \<noteq> None)"

definition rightContainerRef :: "app \<Rightarrow> bool" where
  "rightContainerRef s = (rightPDF s \<noteq> None)"

subsection \<open>Documents\<close>

definition swapDocuments :: "nat \<Rightarrow> app \<Rightarrow> app" where
  "swapDocuments now s =
     s\<lparr> leftPDF := rightPDF s, rightPDF := leftPDF s,
        leftInputKey := now, rightInputKey := now,
        summary := map (\<lambda>item. \<lparr> label = label item, left = right item, right = left item \<rparr>)
                     (summary s) \<rparr>"

definition removeDocument :: "side \<Rightarrow> nat \<Rightarrow> app \<Rightarrow> app" where
  "removeDocument sd now s =
     (if sd = Left then s\<lparr> leftPDF := None, leftInputKey := now \<rparr>
      else s\<lparr> rightPDF := None, rightInputKey := now \<rparr>)"

definition refreshDocuments :: "nat \<Rightarrow> app \<Rightarrow> app" where
  "refreshDocuments now s =
     s\<lparr> leftPDF := None, rightPDF := None, leftInputKey := now, rightInputKey := now \<rparr>"

text \<open>\<^verbatim>\<open>handleFileChange\<close> with a chosen file (the \<^verbatim>\<open>if (file)\<close> branch).\<close>

definition handleFileChange :: "pdfFile \<Rightarrow> side \<Rightarrow> app \<Rightarrow> app" where
  "handleFileChange f sd s = (if sd = Left then s\<lparr> leftPDF := Some f \<rparr> else s\<lparr> rightPDF := Some f \<rparr>)"

subsection \<open>Zoom\<close>

definition changeLeftZoom :: "real \<Rightarrow> app \<Rightarrow> app" where
  "changeLeftZoom delta s =
     (let newScale = max 0.5 (min 2 (leftScale s + delta));
          s1 = s\<lparr> leftScale := newScale \<rparr>
      in if syncZoom s then s1\<lparr> rightScale := newScale + zoomDiff s \<rparr> else s1)"

definition changeRightZoom :: "real \<Rightarrow> app \<Rightarrow> app" where
  "changeRightZoom delta s =
     (let newScale = max 0.5 (min 2 (rightScale s + delta));
          s1 = s\<lparr> rightScale := newScale \<rparr>
      in if syncZoom s then s1\<lparr> leftScale := newScale - zoomDiff s \<rparr> else s1)"

text \<open>\<^verbatim>\<open>setSyncZoom((prev) => !prev)\<close> and \<^verbatim>\<open>setSyncScroll((prev) => !prev)\<close>.\<close>

definition toggleSyncZoom :: "app \<Rightarrow> app" where
  "toggleSyncZoom s = s\<lparr> syncZoom := (\<not> syncZoom s) \<rparr>"

definition toggleSyncScroll :: "app \<Rightarrow> app" where
  "toggleSyncScroll s = s\<lparr> syncScroll := (\<not> syncScroll s) \<rparr>"

text \<open>
  The zoom offset effect.  Its body is
  \<^verbatim>\<open>if (syncZoom) { setZoomDiff(rightScale - leftScale); }\<close>; the result is the argument
  of \<^verbatim>\<open>setZoomDiff\<close> when it is called.  React runs the body after a render whose
  dependency array differs from the previous render's.  The array is
  \<^verbatim>\<open>[syncZoom, rightScale, leftScale]\<close> in \<^verbatim>\<open>src/src/App.tsx\<close> and \<^verbatim>\<open>[syncZoom]\<close> in
  \<^verbatim>\<open>src/unnamed/part_000\<close>.
\<close>

datatype variant = AppTsx | Part000

definition zoomDiffBody :: "app \<Rightarrow> real option" where
  "zoomDiffBody s = (if syncZoom s then Some (rightScale s - leftScale s) else None)"

definition zoomDiffDepsChanged :: "variant \<Rightarrow> app \<Rightarrow> app \<Rightarrow> bool" where
  "zoomDiffDepsChanged v prev cur =
     (case v of
        AppTsx \<Rightarrow> (syncZoom prev, rightScale prev, leftScale prev)
                    \<noteq> (syncZoom cur, rightScale cur, leftScale cur)
      | Part000 \<Rightarrow> syncZoom prev \<noteq> syncZoom cur)"

definition zoomDiffEffect :: "variant \<Rightarrow> app \<Rightarrow> app \<Rightarrow> real option" where
  "zoomDiffEffect v prev cur = (if zoomDiffDepsChanged v prev cur then zoomDiffBody cur else None)"

text \<open>
  The scroll offset effect, with the dependency array \<^verbatim>\<open>[syncScroll]\<close> in both variants.
\<close>

definition scrollDiffEffect :: "app \<Rightarrow> app \<Rightarrow> real option" where
  "scrollDiffEffect prev cur =
     (if syncScroll prev \<noteq> syncScroll cur
      then (if syncScroll cur \<and> leftContainerRef cur \<and> rightContainerRef cur
            then Some (rightScrollTop cur - leftScrollTop cur) else None)
      else None)"

text \<open>The state after the effects of the render that follows the one of \<open>prev\<close>.\<close>

definition runEffects :: "variant \<Rightarrow> app \<Rightarrow> app \<Rightarrow> app" where
  "runEffects v prev cur =
     (let s1 = (case zoomDiffEffect v prev cur of None \<Rightarrow> cur | Some d \<Rightarrow> cur\<lparr> zoomDiff := d \<rparr>)
      in case scrollDiffEffect prev cur of None \<Rightarrow> s1 | Some d \<Rightarrow> s1\<lparr> scrollDiff := d \<rparr>)"

subsection \<open>Scroll linking\<close>

text \<open>
  \<open>scrollTop\<close> is \<^verbatim>\<open>e.currentTarget.scrollTop\<close>.  The handler returns at once when linking
  is off or the latch \<^verbatim>\<open>isSyncing.current\<close> is set; otherwise it sets the latch, writes
  the other container's \<^verbatim>\<open>scrollTop\<close> if that container exists, and schedules the
  release of the latch.
\<close>

definition onLeftScroll :: "real \<Rightarrow> app \<Rightarrow> app" where
  "onLeftScroll scrollTop s =
     (if \<not> syncScroll s \<or> isSyncing s then s
      else
        let s1 = s\<lparr> isSyncing := True \<rparr>;
            s2 = (if rightContainerRef s
                  then s1\<lparr> rightScrollTop := scrollTop + scrollDiff s,
                           writes := writes s @ [(Right, scrollTop + scrollDiff s)] \<rparr>
                  else s1)
        in s2\<lparr> timers := Suc (timers s) \<rparr>)"

definition onRightScroll :: "real \<Rightarrow> app \<Rightarrow> app" where
  "onRightScroll scrollTop s =
     (if \<not> syncScroll s \<or> isSyncing s then s
      else
        let s1 = s\<lparr> isSyncing := True \<rparr>;
            s2 = (if leftContainerRef s
                  then s1\<lparr> leftScrollTop := scrollTop - scrollDiff s,
                           writes := writes s @ [(Left, scrollTop - scrollDiff s)] \<rparr>
                  else s1)
        in s2\<lparr> timers := Suc (timers s) \<rparr>)"

text \<open>One scheduled callback \<^verbatim>\<open>() => (isSyncing.current = false)\<close> runs.\<close>

definition timeout :: "app \<Rightarrow> app" where
  "timeout s = (if timers s = 0 then s else s\<lparr> isSyncing := False, timers := timers s - 1 \<rparr>)"

subsection \<open>The contrast panel's mirror containers\<close>

text \<open>
  What the two stacked layers of \<^verbatim>\<open>ContrastPanel\<close> render: the back layer (opacity 1)
  shows the document that is not in front, the front layer (opacity 0.5) the one that
  is; a layer shows a \<^verbatim>\<open>PDFViewer\<close> with a scroll container only when its document is
  loaded, and the panel renders nothing when it is not visible.
\<close>

definition backLayer :: "app \<Rightarrow> side option" where
  "backLayer s =
     (if \<not> showContrast s then None
      else if rightPDF s \<noteq> None \<or> leftPDF s \<noteq> None
      then (if frontDoc s = Left
            then (if rightPDF s \<noteq> None then Some Right else None)
            else (if leftPDF s \<noteq> None then Some Left else None))
      else None)"

definition frontLayer :: "app \<Rightarrow> side option" where
  "frontLayer s =
     (if \<not> showContrast s then None
      else if rightPDF s \<noteq> None \<or> leftPDF s \<noteq> None
      then (if frontDoc s = Left
            then (if leftPDF s \<noteq> None then Some Left else None)
            else (if rightPDF s \<noteq> None then Some Right else None))
      else None)"

text \<open>\<^verbatim>\<open>overlayLeftRef.current\<close> and \<^verbatim>\<open>overlayRightRef.current\<close> are not null.\<close>

definition overlayLeftRef :: "app \<Rightarrow> bool" where
  "overlayLeftRef s = (backLayer s = Some Left \<or> frontLayer s = Some Left)"

definition overlayRightRef :: "app \<Rightarrow> bool" where
  "overlayRightRef s = (backLayer s = Some Right \<or> frontLayer s = Some Right)"

text \<open>
  The functions of the panel's scroll effect.  \<^verbatim>\<open>sync\<close> runs when the effect does;
  \<^verbatim>\<open>onLeft\<close> and \<^verbatim>\<open>onRight\<close> are the listeners it adds to the primary containers
  (\<^verbatim>\<open>leftEl\<close> and \<^verbatim>\<open>rightEl\<close> are the primary containers at the time the effect ran).
\<close>

definition sync :: "app \<Rightarrow> app" where
  "sync s =
     (let s1 = (if leftContainerRef s \<and> overlayLeftRef s
                then s\<lparr> overlayLeftScrollTop := leftScrollTop s \<rparr> else s)
      in if rightContainerRef s \<and> overlayRightRef s
         then s1\<lparr> overlayRightScrollTop := rightScrollTop s \<rparr> else s1)"

definition onLeft :: "app \<Rightarrow> app" where
  "onLeft s =
     (if overlayLeftRef s \<and> leftContainerRef s
      then s\<lparr> overlayLeftScrollTop := leftScrollTop s \<rparr> else s)"

definition onRight :: "app \<Rightarrow> app" where
  "onRight s =
     (if overlayRightRef s \<and> rightContainerRef s
      then s\<lparr> overlayRightScrollTop := rightScrollTop s \<rparr> else s)"

subsection \<open>Events\<close>

text \<open>
  The events of the page that reach the handlers above.  \<open>UserScroll sd v\<close>: the user
  scrolls the primary container of side \<open>sd\<close> to \<open>v\<close>.  \<open>EchoScroll sd\<close>: the scroll
  event the browser dispatches on a primary container after a handler wrote its
  \<^verbatim>\<open>scrollTop\<close>.  \<open>MirrorScroll sd\<close>: a scroll event on a mirror container.
  \<open>Timeout\<close>: the scheduler runs one pending timer callback.
\<close>

datatype event =
    ChangeLeftZoom real
  | ChangeRightZoom real
  | ToggleSyncZoom
  | ToggleSyncScroll
  | ToggleContrast
  | SetFrontDoc side
  | UserScroll side real
  | EchoScroll side
  | MirrorScroll side
  | Timeout
  | FileChosen pdfFile side
  | RemoveDocument side nat
  | SwapDocuments nat
  | RefreshDocuments nat

text \<open>
  A scroll event on a primary container runs the \<^verbatim>\<open>onScroll\<close> handler of \<^verbatim>\<open>App\<close> and,
  while the panel is visible, the listener the panel added.  No listener is attached to
  a mirror container: the panel passes no \<^verbatim>\<open>onScroll\<close> to its two viewers.
\<close>

definition scrollEvent :: "side \<Rightarrow> app \<Rightarrow> app" where
  "scrollEvent sd s =
     (case sd of
        Left \<Rightarrow>
          (if leftContainerRef s
           then (let s1 = onLeftScroll (leftScrollTop s) s in if showContrast s1 then onLeft s1 else s1)
           else s)
      | Right \<Rightarrow>
          (if rightContainerRef s
           then (let s1 = onRightScroll (rightScrollTop s) s in if showContrast s1 then onRight s1 else s1)
           else s))"

text \<open>
  The handler of each event, behind the guards of the JSX: a file can be chosen or
  dropped only on an empty side, the remove button exists only on a loaded side, and the
  swap button is disabled when both sides are empty.  A container that is mounted anew
  starts at \<^verbatim>\<open>scrollTop\<close> 0: the primary container of a side that was empty, after a file
  was chosen or the documents were swapped.  A side that loses its document loses its
  container, and the next one starts at 0: the position recorded for an empty side is 0.
  The button that changes the front document
  exists only in the visible panel; the two layers keep their elements when it is
  clicked and the two refs change places, so each mirror ref then reads what the other
  held (a layer that shows a viewer for the first time mounts it at 0).
\<close>

definition handle :: "event \<Rightarrow> app \<Rightarrow> app" where
  "handle ev s =
     (case ev of
        ChangeLeftZoom delta \<Rightarrow> changeLeftZoom delta s
      | ChangeRightZoom delta \<Rightarrow> changeRightZoom delta s
      | ToggleSyncZoom \<Rightarrow> toggleSyncZoom s
      | ToggleSyncScroll \<Rightarrow> toggleSyncScroll s
      | ToggleContrast \<Rightarrow> s\<lparr> showContrast := (\<not> showContrast s) \<rparr>
      | SetFrontDoc d \<Rightarrow>
          (if \<not> showContrast s \<or> d = frontDoc s then s\<lparr> frontDoc := d \<rparr>
           else s\<lparr> frontDoc := d,
                   overlayLeftScrollTop := (if rightPDF s \<noteq> None then overlayRightScrollTop s else 0),
                   overlayRightScrollTop := (if leftPDF s \<noteq> None then overlayLeftScrollTop s else 0) \<rparr>)
      | UserScroll sd v \<Rightarrow>
          (case sd of
             Left \<Rightarrow> scrollEvent Left (if leftContainerRef s then s\<lparr> leftScrollTop := v \<rparr> else s)
           | Right \<Rightarrow> scrollEvent Right (if rightContainerRef s then s\<lparr> rightScrollTop := v \<rparr> else s))
      | EchoScroll sd \<Rightarrow> scrollEvent sd s
      | MirrorScroll sd \<Rightarrow> s
      | Timeout \<Rightarrow> timeout s
      | FileChosen f sd \<Rightarrow>
          (case sd of
             Left \<Rightarrow> (if leftPDF s = None then (handleFileChange f Left s)\<lparr> leftScrollTop := 0 \<rparr> else s)
           | Right \<Rightarrow> (if rightPDF s = None then (handleFileChange f Right s)\<lparr> rightScrollTop := 0 \<rparr> else s))
      | RemoveDocument sd now \<Rightarrow>
          (case sd of
             Left \<Rightarrow> (if leftPDF s = None then s else (removeDocument Left now s)\<lparr> leftScrollTop := 0 \<rparr>)
           | Right \<Rightarrow> (if rightPDF s = None then s else (removeDocument Right now s)\<lparr> rightScrollTop := 0 \<rparr>))
      | SwapDocuments now \<Rightarrow>
          (if leftPDF s = None \<and> rightPDF s = None then s
           else (swapDocuments now s)
                  \<lparr> leftScrollTop := (if leftPDF s = None \<or> rightPDF s = None then 0 else leftScrollTop s),
                    rightScrollTop := (if leftPDF s = None \<or> rightPDF s = None then 0 else rightScrollTop s) \<rparr>)
      | RefreshDocuments now \<Rightarrow> (refreshDocuments now s)\<lparr> leftScrollTop := 0, rightScrollTop := 0 \<rparr>)"

text \<open>
  The panel's scroll effect has the dependencies \<^verbatim>\<open>visible\<close>, the two files and the two
  scales; when one of them changed and the panel is visible, \<^verbatim>\<open>sync\<close> runs.
\<close>

definition panelScrollEffect :: "app \<Rightarrow> app \<Rightarrow> app" where
  "panelScrollEffect prev cur =
     (if (showContrast prev, leftPDF prev, rightPDF prev, leftScale prev, rightScale prev)
           \<noteq> (showContrast cur, leftPDF cur, rightPDF cur, leftScale cur, rightScale cur)
         \<and> showContrast cur
      then sync cur else cur)"

text \<open>
  One event: its handler, then the effects of the render that follows.  The variant
  \<^verbatim>\<open>src/unnamed/part_000\<close> has the same handlers and no contrast panel: there
  \<open>showContrast\<close> stays \<open>False\<close>, and the events \<open>ToggleContrast\<close>, \<open>SetFrontDoc\<close> and
  \<open>MirrorScroll\<close> do not occur.
\<close>

definition step :: "variant \<Rightarrow> event \<Rightarrow> app \<Rightarrow> app" where
  "step v ev s = (let cur = handle ev s in runEffects v s (panelScrollEffect s cur))"

definition run :: "variant \<Rightarrow> event list \<Rightarrow> app \<Rightarrow> app" where
  "run v evs s = foldl (\<lambda>s ev. step v ev s) s evs"

section \<open>Zoom in binary64 arithmetic\<close>

text \<open>
  The zoom handlers above add and subtract exact reals.  The source computes with
  IEEE 754 binary64 numbers, where \<^verbatim>\<open>+\<close> and \<^verbatim>\<open>-\<close> return the exact result rounded to the
  nearest representable number, ties to the even significand.  Orderings and the question
  which handler or effect runs do not depend on the rounding; an equation between sums
  does.  The definitions of this section repeat the zoom handlers with the rounding
  written out.

  \<open>roundTiesToEven t\<close> is the integer nearest to \<open>t\<close>, the even one of two equally near.
  \<open>exponent n x\<close> is the binary exponent of a positive \<open>x\<close>, found by halving or doubling
  at most \<open>n\<close> times.  \<open>double x\<close> rounds \<open>x\<close> to 53 significant bits; it is the binary64
  value of \<open>x\<close> wherever that value is a normal number (no overflow to \<^verbatim>\<open>Infinity\<close>, no
  subnormal result), which covers every scale between 0.5 and 2 and every offset met
  below.
\<close>

definition roundTiesToEven :: "real \<Rightarrow> int" where
  "roundTiesToEven t =
     (let f = \<lfloor>t\<rfloor>; r = t - real_of_int f
      in if r < 1 / 2 then f else if 1 / 2 < r then f + 1 else if even f then f else f + 1)"

fun exponent :: "nat \<Rightarrow> real \<Rightarrow> int" where
  "exponent 0 x = 0"
| "exponent (Suc n) x =
     (if 2 \<le> x then exponent n (x / 2) + 1
      else if x < 1 then exponent n (2 * x) - 1
      else 0)"

definition double :: "real \<Rightarrow> real" where
  "double x =
     (if x = 0 then 0
      else let u = 2 powi (exponent 1100 \<bar>x\<bar> - 52)
           in real_of_int (roundTiesToEven (x / u)) * u)"

text \<open>\<^verbatim>\<open>changeLeftZoom\<close> and \<^verbatim>\<open>changeRightZoom\<close>, every sum and difference rounded.\<close>

definition changeLeftZoom64 :: "real \<Rightarrow> app \<Rightarrow> app" where
  "changeLeftZoom64 delta s =
     (let newScale = max 0.5 (min 2 (double (leftScale s + delta)));
          s1 = s\<lparr> leftScale := newScale \<rparr>
      in if syncZoom s then s1\<lparr> rightScale := double (newScale + zoomDiff s) \<rparr> else s1)"

definition changeRightZoom64 :: "real \<Rightarrow> app \<Rightarrow> app" where
  "changeRightZoom64 delta s =
     (let newScale = max 0.5 (min 2 (double (rightScale s + delta)));
          s1 = s\<lparr> rightScale := newScale \<rparr>
      in if syncZoom s then s1\<lparr> leftScale := double (newScale - zoomDiff s) \<rparr> else s1)"

text \<open>The zoom offset effect: \<^verbatim>\<open>setZoomDiff(rightScale - leftScale)\<close> with the difference rounded.\<close>

definition zoomDiffEffect64 :: "variant \<Rightarrow> app \<Rightarrow> app \<Rightarrow> real option" where
  "zoomDiffEffect64 v prev cur =
     (if zoomDiffDepsChanged v prev cur
      then (if syncZoom cur then Some (double (rightScale cur - leftScale cur)) else None)
      else None)"

text \<open>
  The five zoom buttons of the page: \<^verbatim>\<open>changeLeftZoom(-0.1)\<close>, \<^verbatim>\<open>changeLeftZoom(0.1)\<close>,
  \<^verbatim>\<open>changeRightZoom(-0.1)\<close>, \<^verbatim>\<open>changeRightZoom(0.1)\<close> and the zoom link toggle.  The literal
  \<^verbatim>\<open>0.1\<close> is the binary64 number nearest to one tenth.  A click runs the handler and then
  the effects of the next render; the scroll offset effect does not run, since a zoom
  click leaves \<open>syncScroll\<close> as it is.
\<close>

datatype zoomButton = LeftMinus | LeftPlus | RightMinus | RightPlus | ZoomLink

definition zoomClick64 :: "variant \<Rightarrow> zoomButton \<Rightarrow> app \<Rightarrow> app" where
  "zoomClick64 v b s =
     (let cur = (case b of
                   LeftMinus \<Rightarrow> changeLeftZoom64 (- double 0.1) s
                 | LeftPlus \<Rightarrow> changeLeftZoom64 (double 0.1) s
                 | RightMinus \<Rightarrow> changeRightZoom64 (- double 0.1) s
                 | RightPlus \<Rightarrow> changeRightZoom64 (double 0.1) s
                 | ZoomLink \<Rightarrow> toggleSyncZoom s);
          shown = panelScrollEffect s cur
      in case zoomDiffEffect64 v s cur of None \<Rightarrow> shown | Some d \<Rightarrow> shown\<lparr> zoomDiff := d \<rparr>)"

definition zoomClicks64 :: "variant \<Rightarrow> zoomButton list \<Rightarrow> app \<Rightarrow> app" where
  "zoomClicks64 v bs s = foldl (\<lambda>s b. zoomClick64 v b s) s bs"

section \<open>ContrastPanel: drag, resize and dock\<close>

text \<open>
  The panel's own state: \<^verbatim>\<open>position\<close> \<open>{x, y}\<close>, \<^verbatim>\<open>dragging\<close>, the ref \<^verbatim>\<open>dragOffset\<close>,
  \<^verbatim>\<open>size\<close> \<open>{wRatio, hRatio}\<close>, \<^verbatim>\<open>resizing\<close>, the ref \<^verbatim>\<open>resizeStart\<close>, \<^verbatim>\<open>docked\<close> and
  \<^verbatim>\<open>panelZoom\<close>.
\<close>

record panel =
  position_x :: real
  position_y :: real
  dragging :: bool
  dragOffset_x :: real
  dragOffset_y :: real
  wRatio :: real
  hRatio :: real
  resizing :: bool
  startW :: real
  startH :: real
  startX :: real
  startY :: real
  docked :: bool
  panelZoom :: real

definition initialPanel :: panel where
  "initialPanel =
     \<lparr> position_x = 24, position_y = 24, dragging = False, dragOffset_x = 0, dragOffset_y = 0,
       wRatio = 0.25, hRatio = 0.25, resizing = False,
       startW = 0, startH = 0, startX = 0, startY = 0, docked = False, panelZoom = 1 \<rparr>"

text \<open>The stored floating geometry: \<^verbatim>\<open>position\<close> and \<^verbatim>\<open>size\<close>.\<close>

definition position :: "panel \<Rightarrow> real \<times> real" where
  "position p = (position_x p, position_y p)"

definition panelSize :: "panel \<Rightarrow> real \<times> real" where
  "panelSize p = (wRatio p, hRatio p)"

text \<open>
  \<open>onHandle\<close> says whether \<^verbatim>\<open>e.target.closest('.contrast-drag-handle')\<close> found the top bar.
\<close>

definition onMouseDown :: "bool \<Rightarrow> real \<Rightarrow> real \<Rightarrow> panel \<Rightarrow> panel" where
  "onMouseDown onHandle clientX clientY p =
     (if onHandle
      then p\<lparr> dragging := True,
              dragOffset_x := clientX - position_x p,
              dragOffset_y := clientY - position_y p \<rparr>
      else p)"

text \<open>
  \<^verbatim>\<open>Math.min(0.95, px / inner)\<close> for a pixel length \<open>px\<close> that is at least 220 and a
  viewport length \<open>inner\<close> (\<^verbatim>\<open>window.innerWidth\<close>, \<^verbatim>\<open>window.innerHeight\<close>: integers that
  are never negative).  JavaScript divides a positive number by zero to \<^verbatim>\<open>Infinity\<close>,
  and \<^verbatim>\<open>Math.min(0.95, Infinity)\<close> is 0.95.
\<close>

definition minRatio :: "real \<Rightarrow> nat \<Rightarrow> real" where
  "minRatio px inner = (if inner = 0 then 0.95 else min 0.95 (px / real inner))"

definition onMouseMove :: "real \<Rightarrow> real \<Rightarrow> nat \<Rightarrow> nat \<Rightarrow> panel \<Rightarrow> panel" where
  "onMouseMove clientX clientY innerWidth innerHeight p =
     (let p1 = (if dragging p \<and> \<not> docked p
                then p\<lparr> position_x := clientX - dragOffset_x p,
                        position_y := clientY - dragOffset_y p \<rparr>
                else p)
      in if resizing p \<and> \<not> docked p
         then
           let dx = clientX - startX p;
               dy = clientY - startY p;
               newW = max 260 (startW p + dx);
               newH = max 220 (startH p + dy)
           in p1\<lparr> wRatio := minRatio newW innerWidth, hRatio := minRatio newH innerHeight \<rparr>
         else p1)"

definition onMouseUp :: "panel \<Rightarrow> panel" where
  "onMouseUp p = p\<lparr> dragging := False, resizing := False \<rparr>"

text \<open>
  \<open>rect\<close> is the width and height of \<^verbatim>\<open>panelRef.current.getBoundingClientRect()\<close>, or
  \<open>None\<close> when \<^verbatim>\<open>panelRef.current\<close> is null.
\<close>

definition startResize :: "(real \<times> real) option \<Rightarrow> real \<Rightarrow> real \<Rightarrow> panel \<Rightarrow> panel" where
  "startResize rect clientX clientY p =
     (case rect of
        None \<Rightarrow> p
      | Some (w, h) \<Rightarrow>
          p\<lparr> resizing := True, startW := w, startH := h, startX := clientX, startY := clientY \<rparr>)"

text \<open>The dock button: \<^verbatim>\<open>setDocked((d) => !d)\<close>.\<close>

definition toggleDocked :: "panel \<Rightarrow> panel" where
  "toggleDocked p = p\<lparr> docked := (\<not> docked p) \<rparr>"

text \<open>
  \<^verbatim>\<open>+(z).toFixed(2)\<close> on exact numbers: the multiple of 0.01 nearest to \<open>z\<close>, the larger
  one of two equally near, taken on the absolute value.
\<close>

definition toFixed2 :: "real \<Rightarrow> real" where
  "toFixed2 z =
     (if z < 0 then - (real_of_int \<lfloor>- z * 100 + 1 / 2\<rfloor> / 100)
      else real_of_int \<lfloor>z * 100 + 1 / 2\<rfloor> / 100)"

text \<open>
  The panel's zoom buttons: \<^verbatim>\<open>setPanelZoom((z) => Math.max(0.5, +(z - 0.1).toFixed(2)))\<close>
  and \<^verbatim>\<open>setPanelZoom((z) => Math.min(2, +(z + 0.1).toFixed(2)))\<close>.
\<close>

definition panelZoomOut :: "panel \<Rightarrow> panel" where
  "panelZoomOut p = p\<lparr> panelZoom := max 0.5 (toFixed2 (panelZoom p - 0.1)) \<rparr>"

definition panelZoomIn :: "panel \<Rightarrow> panel" where
  "panelZoomIn p = p\<lparr> panelZoom := min 2 (toFixed2 (panelZoom p + 0.1)) \<rparr>"

text \<open>
  The pointer and button events of the panel.  \<open>MouseMove\<close> carries the pointer position
  and the viewport size at that moment.  The resize grip is rendered only while the
  panel is not docked, so its \<^verbatim>\<open>onMouseDown\<close> cannot fire while it is.
\<close>

datatype panelEvent =
    MouseDown bool real real
  | MouseMove real real nat nat
  | MouseUp
  | StartResize "(real \<times> real) option" real real
  | ToggleDocked
  | ZoomOut
  | ZoomIn

definition panelStep :: "panelEvent \<Rightarrow> panel \<Rightarrow> panel" where
  "panelStep ev p =
     (case ev of
        MouseDown onHandle cx cy \<Rightarrow> onMouseDown onHandle cx cy p
      | MouseMove cx cy iw ih \<Rightarrow> onMouseMove cx cy iw ih p
      | MouseUp \<Rightarrow> onMouseUp p
      | StartResize rect cx cy \<Rightarrow> (if docked p then p else startResize rect cx cy p)
      | ToggleDocked \<Rightarrow> toggleDocked p
      | ZoomOut \<Rightarrow> panelZoomOut p
      | ZoomIn \<Rightarrow> panelZoomIn p)"

definition panelRun :: "panelEvent list \<Rightarrow> panel \<Rightarrow> panel" where
  "panelRun evs p = foldl (\<lambda>p ev. panelStep ev p) p evs"

text \<open>The range of the stored size: both ratios are positive and at most 0.95.\<close>

definition ratiosInRange :: "panel \<Rightarrow> bool" where
  "ratiosInRange p = (0 < wRatio p \<and> wRatio p \<le> 0.95 \<and> 0 < hRatio p \<and> hRatio p \<le> 0.95)"

section \<open>The page list of PDFViewer\<close>

lemma set_foldl_setAdd: "set (foldl setAdd acc xs) = set acc \<union> set xs"
  by (induction xs arbitrary: acc) (auto simp: setAdd_def)

lemma distinct_foldl_setAdd: "distinct acc \<Longrightarrow> distinct (foldl setAdd acc xs)"
  by (induction xs arbitrary: acc) (auto simp: setAdd_def)

lemma set_newSet: "set (newSet xs) = set xs"
  by (simp add: newSet_def set_foldl_setAdd)

lemma distinct_newSet: "distinct (newSet xs)"
  by (simp add: newSet_def distinct_foldl_setAdd)

lemma set_setVisiblePages: "set (setVisiblePages entries prev) = set prev \<union> set (visible entries)"
  by (simp add: setVisiblePages_def set_newSet)

lemma strict_setVisiblePages: "sorted_wrt (<) (setVisiblePages entries prev)"
  by (simp add: setVisiblePages_def strict_sorted_iff distinct_newSet)

lemma visiblePagesAfter_snoc:
  "visiblePagesAfter (cbs @ [es]) = setVisiblePages es (visiblePagesAfter cbs)"
  by (simp add: visiblePagesAfter_def)

lemma strict_visiblePagesAfter: "sorted_wrt (<) (visiblePagesAfter cbs)"
  by (cases cbs rule: rev_cases) (simp_all add: visiblePagesAfter_def strict_setVisiblePages)

lemma visiblePagesAfter_mono:
  "set (visiblePagesAfter cbs) \<subseteq> set (visiblePagesAfter (cbs @ later))"
proof (induction later rule: rev_induct)
  case Nil
  show ?case by simp
next
  case (snoc es later)
  have "set (visiblePagesAfter (cbs @ later @ [es])) =
        set (visiblePagesAfter (cbs @ later)) \<union> set (visible es)"
    using visiblePagesAfter_snoc [of "cbs @ later" es] by (simp add: set_setVisiblePages)
  with snoc show ?case by auto
qed

text \<open>
  Claim C10.  The updater of the observer callback returns a strictly increasing list
  without duplicates whose elements are those of the previous list together with the
  page numbers reported visible; hence \<open>visiblePages\<close> is strictly increasing and free of
  duplicates after any sequence of callbacks, and a page that is rendered after some
  callbacks is still rendered after any further callbacks (for the same page count).
\<close>

theorem visiblePages_sorted_monotone:
  "sorted_wrt (<) (setVisiblePages entries prev)
   \<and> distinct (setVisiblePages entries prev)
   \<and> set (setVisiblePages entries prev) = set prev \<union> set (visible entries)
   \<and> sorted_wrt (<) (visiblePagesAfter callbacks)
   \<and> distinct (visiblePagesAfter callbacks)
   \<and> (pageRendered numPages (visiblePagesAfter callbacks) n
        \<longrightarrow> pageRendered numPages (visiblePagesAfter (callbacks @ later)) n)"
proof -
  have d: "distinct xs" if "sorted_wrt (<) xs" for xs :: "nat list"
    using that by (simp add: strict_sorted_iff)
  have "pageRendered numPages (visiblePagesAfter (callbacks @ later)) n"
    if "pageRendered numPages (visiblePagesAfter callbacks) n"
    using that visiblePagesAfter_mono [of callbacks later] by (auto simp: pageRendered_def)
  then show ?thesis
    using strict_setVisiblePages strict_visiblePagesAfter set_setVisiblePages d by blast
qed

text \<open>
  Page 3 becomes visible; a later callback reports page 3 as no longer intersecting and
  page 1 as visible: page 3 stays, and the list is \<open>[1, 3]\<close>.
\<close>

theorem visiblePages_sorted_monotone_witness:
  "pageRendered 5 (visiblePagesAfter [[\<lparr>isIntersecting = True, dataPageNumber = 3\<rparr>]]) 3
   \<and> pageRendered 5
        (visiblePagesAfter
          ([[\<lparr>isIntersecting = True, dataPageNumber = 3\<rparr>]]
           @ [[\<lparr>isIntersecting = False, dataPageNumber = 3\<rparr>,
               \<lparr>isIntersecting = True, dataPageNumber = 1\<rparr>]])) 3
   \<and> setVisiblePages [\<lparr>isIntersecting = False, dataPageNumber = 3\<rparr>,
               \<lparr>isIntersecting = True, dataPageNumber = 1\<rparr>] [3] = [1, 3]"
proof -
  have r: "pageRendered 5 (visiblePagesAfter [[\<lparr>isIntersecting = True, dataPageNumber = 3\<rparr>]]) 3"
    by (simp add: pageRendered_def visiblePagesAfter_def setVisiblePages_def visible_def
        newSet_def setAdd_def)
  have e: "setVisiblePages [\<lparr>isIntersecting = False, dataPageNumber = 3\<rparr>,
               \<lparr>isIntersecting = True, dataPageNumber = 1\<rparr>] [3] = [1, 3]"
    by (simp add: setVisiblePages_def visible_def newSet_def setAdd_def)
  from r e visiblePages_sorted_monotone
    [of "[\<lparr>isIntersecting = False, dataPageNumber = 3\<rparr>, \<lparr>isIntersecting = True, dataPageNumber = 1\<rparr>]"
        "[3]" "[[\<lparr>isIntersecting = True, dataPageNumber = 3\<rparr>]]" 5 3
        "[[\<lparr>isIntersecting = False, dataPageNumber = 3\<rparr>, \<lparr>isIntersecting = True, dataPageNumber = 1\<rparr>]]"]
  show ?thesis by blast
qed

section \<open>Zoom linking\<close>

lemma panelScrollEffect_hidden: "\<not> showContrast cur \<Longrightarrow> panelScrollEffect prev cur = cur"
  by (simp add: panelScrollEffect_def)

lemma scrollDiffEffect_same: "syncScroll prev = syncScroll cur \<Longrightarrow> scrollDiffEffect prev cur = None"
  by (simp add: scrollDiffEffect_def)

lemma runEffects_zoom_only:
  "syncScroll prev = syncScroll cur \<Longrightarrow>
   runEffects v prev cur =
     (case zoomDiffEffect v prev cur of None \<Rightarrow> cur | Some d \<Rightarrow> cur\<lparr> zoomDiff := d \<rparr>)"
  by (simp add: runEffects_def scrollDiffEffect_same)

lemma zoomDiffEffect_cases:
  "zoomDiffEffect v prev cur = None \<or>
   (syncZoom cur \<and> zoomDiffEffect v prev cur = Some (rightScale cur - leftScale cur))"
  by (simp add: zoomDiffEffect_def zoomDiffBody_def)

lemma runEffects_invariant:
  assumes "syncScroll prev = syncScroll cur"
    and "syncZoom cur \<Longrightarrow> zoomDiff cur = rightScale cur - leftScale cur"
  shows "runEffects v prev cur = cur"
proof -
  from zoomDiffEffect_cases [of v prev cur]
  have "(case zoomDiffEffect v prev cur of None \<Rightarrow> cur | Some d \<Rightarrow> cur\<lparr> zoomDiff := d \<rparr>) = cur"
  proof
    assume "zoomDiffEffect v prev cur = None"
    then show ?thesis by simp
  next
    assume a: "syncZoom cur \<and> zoomDiffEffect v prev cur = Some (rightScale cur - leftScale cur)"
    with assms(2) have "zoomDiffEffect v prev cur = Some (zoomDiff cur)" by simp
    then show ?thesis by simp
  qed
  with assms(1) show ?thesis by (simp add: runEffects_zoom_only)
qed


lemma changeLeftZoom_fields:
  "leftScale (changeLeftZoom d s) = max 0.5 (min 2 (leftScale s + d))"
  "rightScale (changeLeftZoom d s) =
     (if syncZoom s then max 0.5 (min 2 (leftScale s + d)) + zoomDiff s else rightScale s)"
  "syncZoom (changeLeftZoom d s) = syncZoom s"
  "zoomDiff (changeLeftZoom d s) = zoomDiff s"
  "syncScroll (changeLeftZoom d s) = syncScroll s"
  "showContrast (changeLeftZoom d s) = showContrast s"
  by (simp_all add: changeLeftZoom_def Let_def)

lemma changeRightZoom_fields:
  "rightScale (changeRightZoom d s) = max 0.5 (min 2 (rightScale s + d))"
  "leftScale (changeRightZoom d s) =
     (if syncZoom s then max 0.5 (min 2 (rightScale s + d)) - zoomDiff s else leftScale s)"
  "syncZoom (changeRightZoom d s) = syncZoom s"
  "zoomDiff (changeRightZoom d s) = zoomDiff s"
  "syncScroll (changeRightZoom d s) = syncScroll s"
  "showContrast (changeRightZoom d s) = showContrast s"
  by (simp_all add: changeRightZoom_def Let_def)

lemma step_ChangeLeftZoom:
  assumes "\<not> showContrast s" and "syncZoom s \<longrightarrow> zoomDiff s = rightScale s - leftScale s"
  shows "step v (ChangeLeftZoom d) s = changeLeftZoom d s"
proof -
  have "runEffects v s (changeLeftZoom d s) = changeLeftZoom d s"
    using assms(2) by (intro runEffects_invariant) (simp_all add: changeLeftZoom_fields)
  with assms(1) show ?thesis
    by (simp add: step_def handle_def panelScrollEffect_hidden changeLeftZoom_fields)
qed

lemma step_ChangeRightZoom:
  assumes "\<not> showContrast s" and "syncZoom s \<longrightarrow> zoomDiff s = rightScale s - leftScale s"
  shows "step v (ChangeRightZoom d) s = changeRightZoom d s"
proof -
  have "runEffects v s (changeRightZoom d s) = changeRightZoom d s"
    using assms(2) by (intro runEffects_invariant) (simp_all add: changeRightZoom_fields)
  with assms(1) show ?thesis
    by (simp add: step_def handle_def panelScrollEffect_hidden changeRightZoom_fields)
qed

lemma step_ToggleSyncZoom:
  assumes "\<not> showContrast s"
  shows "step v ToggleSyncZoom s =
     (if syncZoom s then s\<lparr> syncZoom := False \<rparr>
      else s\<lparr> syncZoom := True, zoomDiff := rightScale s - leftScale s \<rparr>)"
proof -
  have z: "zoomDiffEffect v s (toggleSyncZoom s) =
        (if syncZoom s then None else Some (rightScale s - leftScale s))"
    by (cases v) (simp_all add: zoomDiffEffect_def zoomDiffDepsChanged_def zoomDiffBody_def
        toggleSyncZoom_def)
  have "runEffects v s (toggleSyncZoom s) =
     (if syncZoom s then s\<lparr> syncZoom := False \<rparr>
      else s\<lparr> syncZoom := True, zoomDiff := rightScale s - leftScale s \<rparr>)"
    by (simp add: runEffects_zoom_only toggleSyncZoom_def z [unfolded toggleSyncZoom_def])
  with assms show ?thesis
    by (simp add: step_def handle_def panelScrollEffect_hidden toggleSyncZoom_def)
qed

lemma run_Cons: "run v (ev # evs) s = run v evs (step v ev s)"
  by (simp add: run_def)

lemma run_Nil: "run v [] s = s"
  by (simp add: run_def)

lemmas run_simps = run_Cons run_Nil step_ChangeLeftZoom step_ChangeRightZoom step_ToggleSyncZoom
  changeLeftZoom_def changeRightZoom_def initialApp_def Let_def


lemma panelScrollEffect_fields:
  "leftScale (panelScrollEffect prev cur) = leftScale cur"
  "rightScale (panelScrollEffect prev cur) = rightScale cur"
  "syncZoom (panelScrollEffect prev cur) = syncZoom cur"
  "zoomDiff (panelScrollEffect prev cur) = zoomDiff cur"
  by (simp_all add: panelScrollEffect_def sync_def Let_def)

lemma zoomDiffEffect_panelScrollEffect:
  "zoomDiffEffect v prev (panelScrollEffect prev' cur) = zoomDiffEffect v prev cur"
  by (cases v)
    (simp_all add: zoomDiffEffect_def zoomDiffDepsChanged_def zoomDiffBody_def
      panelScrollEffect_fields)

lemma runEffects_fields:
  "leftScale (runEffects v prev cur) = leftScale cur"
  "rightScale (runEffects v prev cur) = rightScale cur"
  "syncZoom (runEffects v prev cur) = syncZoom cur"
  "zoomDiff (runEffects v prev cur) =
     (case zoomDiffEffect v prev cur of None \<Rightarrow> zoomDiff cur | Some d \<Rightarrow> d)"
  by (simp_all add: runEffects_def Let_def split: option.splits)

lemma step_fields:
  "leftScale (step v ev s) = leftScale (handle ev s)"
  "rightScale (step v ev s) = rightScale (handle ev s)"
  "syncZoom (step v ev s) = syncZoom (handle ev s)"
  "zoomDiff (step v ev s) =
     (case zoomDiffEffect v s (handle ev s) of None \<Rightarrow> zoomDiff (handle ev s) | Some d \<Rightarrow> d)"
  by (simp_all add: step_def Let_def runEffects_fields panelScrollEffect_fields
      zoomDiffEffect_panelScrollEffect split: option.splits)

lemma handle_zoom:
  "handle (ChangeLeftZoom d) s = changeLeftZoom d s"
  "handle (ChangeRightZoom d) s = changeRightZoom d s"
  by (simp_all add: handle_def)

text \<open>
  Claim C1.  The claim asks that no zoom change ever leaves a scale outside the interval
  from 0.5 to 2.  The handlers clamp the side they are called for, and write the other
  side as \<open>newScale + zoomDiff\<close> (or \<open>newScale - zoomDiff\<close>) with no clamp.  From the
  initial state of either variant: unlink, raise the right scale ten times to 2, link
  (the effect stores the offset 1), raise the left scale once; the right scale is 2.1.
  Likewise a right scale of -1 is reached.  The side a handler is called for does stay
  inside the interval.
\<close>

theorem linked_zoom_leaves_range:
  "leftScale (run v (ToggleSyncZoom # replicate 10 (ChangeRightZoom 0.1) @ [ToggleSyncZoom])
      (initialApp now)) = 1
   \<and> rightScale (run v (ToggleSyncZoom # replicate 10 (ChangeRightZoom 0.1) @ [ToggleSyncZoom])
      (initialApp now)) = 2
   \<and> rightScale (run v (ToggleSyncZoom # replicate 10 (ChangeRightZoom 0.1)
        @ [ToggleSyncZoom, ChangeLeftZoom 0.1]) (initialApp now)) = 2.1
   \<and> rightScale (run v (ToggleSyncZoom # replicate 10 (ChangeLeftZoom 0.1)
        @ replicate 5 (ChangeRightZoom (- 0.1)) @ ToggleSyncZoom # replicate 15 (ChangeLeftZoom (- 0.1)))
        (initialApp now)) = - 1
   \<and> 0.5 \<le> leftScale (changeLeftZoom d s) \<and> leftScale (changeLeftZoom d s) \<le> 2
   \<and> 0.5 \<le> rightScale (changeRightZoom d s) \<and> rightScale (changeRightZoom d s) \<le> 2"
proof -
  have driven: "0.5 \<le> leftScale (changeLeftZoom d s) \<and> leftScale (changeLeftZoom d s) \<le> 2
      \<and> 0.5 \<le> rightScale (changeRightZoom d s) \<and> rightScale (changeRightZoom d s) \<le> 2"
    by (simp add: changeLeftZoom_fields changeRightZoom_fields)
  have over: "rightScale (run v (ToggleSyncZoom # replicate 10 (ChangeRightZoom 0.1)
        @ [ToggleSyncZoom, ChangeLeftZoom 0.1]) (initialApp now)) = 2.1"
    by (simp add: run_simps eval_nat_numeral)
  have before: "leftScale (run v (ToggleSyncZoom # replicate 10 (ChangeRightZoom 0.1) @ [ToggleSyncZoom])
      (initialApp now)) = 1
   \<and> rightScale (run v (ToggleSyncZoom # replicate 10 (ChangeRightZoom 0.1) @ [ToggleSyncZoom])
      (initialApp now)) = 2"
    by (simp add: run_simps eval_nat_numeral)
  have under: "rightScale (run v (ToggleSyncZoom # replicate 10 (ChangeLeftZoom 0.1)
        @ replicate 5 (ChangeRightZoom (- 0.1)) @ ToggleSyncZoom # replicate 15 (ChangeLeftZoom (- 0.1)))
        (initialApp now)) = - 1"
    by (simp add: run_simps eval_nat_numeral)
  from before over under driven show ?thesis by (simp only: simp_thms)
qed

text \<open>
  Claim C2.  The claim's own example: the state with left scale 0.5, right scale 2 and
  offset 1.5 is reached from the initial state, linked; there \<open>changeLeftZoom 0.1\<close> sets
  the left scale to 0.6 and the right scale to 2.1, where the claim says 2.0.
\<close>

theorem linked_zoom_spec_example:
  "leftScale (run v (ToggleSyncZoom # replicate 5 (ChangeLeftZoom (- 0.1))
        @ replicate 10 (ChangeRightZoom 0.1) @ [ToggleSyncZoom]) (initialApp now)) = 0.5
   \<and> rightScale (run v (ToggleSyncZoom # replicate 5 (ChangeLeftZoom (- 0.1))
        @ replicate 10 (ChangeRightZoom 0.1) @ [ToggleSyncZoom]) (initialApp now)) = 2
   \<and> zoomDiff (run v (ToggleSyncZoom # replicate 5 (ChangeLeftZoom (- 0.1))
        @ replicate 10 (ChangeRightZoom 0.1) @ [ToggleSyncZoom]) (initialApp now)) = 1.5
   \<and> syncZoom (run v (ToggleSyncZoom # replicate 5 (ChangeLeftZoom (- 0.1))
        @ replicate 10 (ChangeRightZoom 0.1) @ [ToggleSyncZoom]) (initialApp now))
   \<and> leftScale (changeLeftZoom 0.1 (run v (ToggleSyncZoom # replicate 5 (ChangeLeftZoom (- 0.1))
        @ replicate 10 (ChangeRightZoom 0.1) @ [ToggleSyncZoom]) (initialApp now))) = 0.6
   \<and> rightScale (changeLeftZoom 0.1 (run v (ToggleSyncZoom # replicate 5 (ChangeLeftZoom (- 0.1))
        @ replicate 10 (ChangeRightZoom 0.1) @ [ToggleSyncZoom]) (initialApp now))) = 2.1"
  by (simp add: run_simps eval_nat_numeral)

text \<open>
  Claim C7 fails for the variant \<^verbatim>\<open>src/unnamed/part_000\<close>: linked, the left scale changes
  from 1 to 1.1, and the offset effect of that variant does not run (that of
  \<^verbatim>\<open>src/src/App.tsx\<close> does).
\<close>

theorem zoomDiff_not_recomputed_in_part_000:
  "syncZoom (initialApp 0)
   \<and> syncZoom (changeLeftZoom 0.1 (initialApp 0))
   \<and> leftScale (changeLeftZoom 0.1 (initialApp 0)) \<noteq> leftScale (initialApp 0)
   \<and> zoomDiffEffect Part000 (initialApp 0) (changeLeftZoom 0.1 (initialApp 0)) = None
   \<and> zoomDiffEffect AppTsx (initialApp 0) (changeLeftZoom 0.1 (initialApp 0)) = Some 0"
  by (simp add: zoomDiffEffect_def zoomDiffDepsChanged_def zoomDiffBody_def changeLeftZoom_fields)
    (simp add: initialApp_def)

text \<open>
  Claim C7, amended.  In \<^verbatim>\<open>src/src/App.tsx\<close>, while zoom linking is on, the offset is
  recomputed as \<open>rightScale - leftScale\<close> after every render in which a scale changed.
  In \<^verbatim>\<open>src/unnamed/part_000\<close> the effect depends on the linking flag only: it recomputes
  the offset when linking is switched on, never while the flag keeps its value, and a
  zoom change leaves the stored offset as it was.
\<close>

theorem zoomDiff_recomputed_by_variant:
  "(syncZoom cur \<and> (leftScale prev \<noteq> leftScale cur \<or> rightScale prev \<noteq> rightScale cur)
      \<longrightarrow> zoomDiffEffect AppTsx prev cur = Some (rightScale cur - leftScale cur))
   \<and> (syncZoom (handle ev s)
        \<and> (leftScale s \<noteq> leftScale (handle ev s) \<or> rightScale s \<noteq> rightScale (handle ev s))
      \<longrightarrow> zoomDiff (step AppTsx ev s) = rightScale (step AppTsx ev s) - leftScale (step AppTsx ev s))
   \<and> (syncZoom prev = syncZoom cur \<longrightarrow> zoomDiffEffect Part000 prev cur = None)
   \<and> (\<not> syncZoom prev \<and> syncZoom cur
      \<longrightarrow> zoomDiffEffect Part000 prev cur = Some (rightScale cur - leftScale cur))
   \<and> zoomDiff (step Part000 (ChangeLeftZoom d) s) = zoomDiff s
   \<and> zoomDiff (step Part000 (ChangeRightZoom d) s) = zoomDiff s"
proof -
  have a: "zoomDiffEffect AppTsx prev cur = Some (rightScale cur - leftScale cur)"
    if "syncZoom cur" "leftScale prev \<noteq> leftScale cur \<or> rightScale prev \<noteq> rightScale cur"
    for prev cur
    using that by (auto simp: zoomDiffEffect_def zoomDiffDepsChanged_def zoomDiffBody_def)
  have b: "zoomDiff (step AppTsx ev s) = rightScale (step AppTsx ev s) - leftScale (step AppTsx ev s)"
    if "syncZoom (handle ev s)"
      "leftScale s \<noteq> leftScale (handle ev s) \<or> rightScale s \<noteq> rightScale (handle ev s)"
    using a [OF that] by (simp add: step_fields)
  have c: "zoomDiffEffect Part000 prev cur = None" if "syncZoom prev = syncZoom cur"
    using that by (simp add: zoomDiffEffect_def zoomDiffDepsChanged_def)
  have e: "zoomDiffEffect Part000 prev cur = Some (rightScale cur - leftScale cur)"
    if "\<not> syncZoom prev" "syncZoom cur"
    using that by (simp add: zoomDiffEffect_def zoomDiffDepsChanged_def zoomDiffBody_def)
  have f: "zoomDiff (step Part000 (ChangeLeftZoom d) s) = zoomDiff s"
    by (simp add: step_fields handle_zoom changeLeftZoom_fields zoomDiffEffect_def
        zoomDiffDepsChanged_def)
  have g: "zoomDiff (step Part000 (ChangeRightZoom d) s) = zoomDiff s"
    by (simp add: step_fields handle_zoom changeRightZoom_fields zoomDiffEffect_def
        zoomDiffDepsChanged_def)
  show ?thesis
    using a b c e f g by blast
qed

text \<open>The first zoom step from the initial state, and switching linking on.\<close>

theorem zoomDiff_recomputed_by_variant_witness:
  "syncZoom (changeLeftZoom 0.1 (initialApp 0))
   \<and> leftScale (initialApp 0) \<noteq> leftScale (changeLeftZoom 0.1 (initialApp 0))
   \<and> zoomDiffEffect AppTsx (initialApp 0) (changeLeftZoom 0.1 (initialApp 0))
       = Some (rightScale (changeLeftZoom 0.1 (initialApp 0)) - leftScale (changeLeftZoom 0.1 (initialApp 0)))
   \<and> syncZoom (initialApp 0) = syncZoom (changeLeftZoom 0.1 (initialApp 0))
   \<and> zoomDiffEffect Part000 (initialApp 0) (changeLeftZoom 0.1 (initialApp 0)) = None
   \<and> \<not> syncZoom (toggleSyncZoom (initialApp 0))
   \<and> zoomDiffEffect Part000 (toggleSyncZoom (initialApp 0)) (initialApp 0)
       = Some (rightScale (initialApp 0) - leftScale (initialApp 0))"
proof -
  have a: "syncZoom (changeLeftZoom 0.1 (initialApp 0))"
    "leftScale (initialApp 0) \<noteq> leftScale (changeLeftZoom 0.1 (initialApp 0))"
    "syncZoom (initialApp 0) = syncZoom (changeLeftZoom 0.1 (initialApp 0))"
    "\<not> syncZoom (toggleSyncZoom (initialApp 0))" "syncZoom (initialApp 0)"
    by (simp_all add: changeLeftZoom_fields toggleSyncZoom_def) (simp_all add: initialApp_def)
  from a
    zoomDiff_recomputed_by_variant [of "changeLeftZoom 0.1 (initialApp 0)" "initialApp 0"]
    zoomDiff_recomputed_by_variant [of "initialApp 0" "toggleSyncZoom (initialApp 0)"]
  show ?thesis by blast
qed

section \<open>The linked offset in binary64 arithmetic\<close>

lemma exponent_numeral:
  "exponent (numeral k) x =
     (if 2 \<le> x then exponent (pred_numeral k) (x / 2) + 1
      else if x < 1 then exponent (pred_numeral k) (2 * x) - 1
      else 0)"
  by (simp add: numeral_eq_Suc)

lemmas double_eval = double_def exponent_numeral roundTiesToEven_def Let_def

text \<open>The literal \<^verbatim>\<open>0.1\<close>: the significand \<^verbatim>\<open>0x1999999999999A\<close> at the exponent -4.\<close>

lemma double_one_tenth: "double 0.1 = 7205759403792794 / 2 ^ 56"
  by (simp add: double_eval)

text \<open>Rounding to an integer errs by at most one half and respects integer bounds.\<close>

lemma roundTiesToEven_error: "\<bar>real_of_int (roundTiesToEven t) - t\<bar> \<le> 1 / 2"
proof -
  have "real_of_int \<lfloor>t\<rfloor> \<le> t" "t < real_of_int \<lfloor>t\<rfloor> + 1" by linarith+
  then show ?thesis
    by (auto simp: roundTiesToEven_def Let_def)
qed

lemma roundTiesToEven_ge: "real_of_int n \<le> t \<Longrightarrow> n \<le> roundTiesToEven t"
proof -
  assume "real_of_int n \<le> t"
  then have "n \<le> \<lfloor>t\<rfloor>" by (simp add: le_floor_iff)
  then show ?thesis by (auto simp: roundTiesToEven_def Let_def)
qed

lemma roundTiesToEven_le: "t \<le> real_of_int n \<Longrightarrow> roundTiesToEven t \<le> n"
proof -
  assume a: "t \<le> real_of_int n"
  show ?thesis
  proof (cases "t = real_of_int n")
    case True
    then show ?thesis by (simp add: roundTiesToEven_def)
  next
    case False
    with a have "t < real_of_int n" by simp
    then have "\<lfloor>t\<rfloor> < n" by (simp add: floor_less_iff)
    then show ?thesis by (auto simp: roundTiesToEven_def Let_def)
  qed
qed


text \<open>
  The exponent search: a number below 2 is never scaled down, a number from 1 on never
  up, and the scaled number stays on its side; with the fuel 1100 the binades from one
  quarter to four get their exponents.
\<close>

lemma pow2_pred: "2 powi (e - 1) = (2 powi e) / (2::real)"
  by (simp add: power_int_diff)

lemma pow2_succ: "2 powi (e + 1) = (2 powi e) * (2::real)"
  by (simp add: power_int_add)

lemma exponent_small:
  "0 < x \<Longrightarrow> x < 2 \<Longrightarrow> exponent n x \<le> 0 \<and> x / 2 powi (exponent n x) < 2"
proof (induction n arbitrary: x)
  case 0
  then show ?case by simp
next
  case (Suc n)
  show ?case
  proof (cases "x < 1")
    case True
    with Suc.prems have "0 < 2 * x" "2 * x < 2" by simp_all
    from Suc.IH [OF this]
    have e: "exponent n (2 * x) \<le> 0" and q: "2 * x / 2 powi (exponent n (2 * x)) < 2" by simp_all
    have ex: "exponent (Suc n) x = exponent n (2 * x) - 1" using True by simp
    have pw: "x / 2 powi (exponent n (2 * x) - 1) = 2 * x / 2 powi (exponent n (2 * x))"
      by (simp only: pow2_pred) simp
    from e have "exponent n (2 * x) - 1 \<le> 0" by linarith
    then show ?thesis unfolding ex pw using q by (rule conjI)
  next
    case False
    with Suc.prems show ?thesis by simp
  qed
qed

lemma exponent_large:
  "1 \<le> x \<Longrightarrow> 0 \<le> exponent n x \<and> 1 \<le> x / 2 powi (exponent n x)"
proof (induction n arbitrary: x)
  case 0
  then show ?case by simp
next
  case (Suc n)
  show ?case
  proof (cases "2 \<le> x")
    case True
    then have "1 \<le> x / 2" by simp
    from Suc.IH [OF this]
    have e: "0 \<le> exponent n (x / 2)" and q: "1 \<le> x / 2 / 2 powi (exponent n (x / 2))" by simp_all
    have ex: "exponent (Suc n) x = exponent n (x / 2) + 1" using True by simp
    have pw: "x / 2 powi (exponent n (x / 2) + 1) = x / 2 / 2 powi (exponent n (x / 2))"
      by (simp add: pow2_succ)
    from e have "0 \<le> exponent n (x / 2) + 1" by linarith
    then show ?thesis unfolding ex pw using q by (rule conjI)
  next
    case False
    with Suc.prems show ?thesis by simp
  qed
qed

lemma exponent_binade_fuel:
  "1 \<le> x \<Longrightarrow> x < 2 \<Longrightarrow> exponent (Suc n) x = 0"
  "1 / 2 \<le> x \<Longrightarrow> x < 1 \<Longrightarrow> exponent (Suc (Suc n)) x = - 1"
  "1 / 4 \<le> x \<Longrightarrow> x < 1 / 2 \<Longrightarrow> exponent (Suc (Suc (Suc n))) x = - 2"
  "2 \<le> x \<Longrightarrow> x < 4 \<Longrightarrow> exponent (Suc (Suc n)) x = 1"
  by simp_all

lemma exponent_binade:
  "1 \<le> x \<Longrightarrow> x < 2 \<Longrightarrow> exponent 1100 x = 0"
  "1 / 2 \<le> x \<Longrightarrow> x < 1 \<Longrightarrow> exponent 1100 x = - 1"
  "1 / 4 \<le> x \<Longrightarrow> x < 1 / 2 \<Longrightarrow> exponent 1100 x = - 2"
  "2 \<le> x \<Longrightarrow> x < 4 \<Longrightarrow> exponent 1100 x = 1"
  using exponent_binade_fuel(1) [of x 1099] exponent_binade_fuel(2) [of x 1098]
    exponent_binade_fuel(3) [of x 1097] exponent_binade_fuel(4) [of x 1098]
  by simp_all

lemma exponent_ge4_fuel: "4 \<le> x \<Longrightarrow> 2 \<le> exponent (Suc (Suc n)) x"
  using exponent_large [of "x / 2 / 2" n] by simp

lemma exponent_ge4: "4 \<le> x \<Longrightarrow> 2 \<le> exponent 1100 x"
  using exponent_ge4_fuel [of x 1098] by simp

lemma exponent_lt_quarter_fuel:
  "0 < x \<Longrightarrow> x < 1 / 4 \<Longrightarrow> exponent (Suc (Suc (Suc n))) x \<le> - 3"
  using exponent_small [of "2 * (2 * (2 * x))" n] by simp

lemma exponent_lt_quarter: "0 < x \<Longrightarrow> x < 1 / 4 \<Longrightarrow> exponent 1100 x \<le> - 3"
  using exponent_lt_quarter_fuel [of x 1097] by simp


text \<open>
  Rounding to binary64 errs by at most half a unit in the last place, keeps the sign, and
  keeps a number outside the interval from one quarter to four outside it; so a result
  between 0.5 and 2 is within \<open>1 / 2 ^ 52\<close> of the exact number.
\<close>

lemma ulp_eq: "2 powi (e - 52) = 2 powi e / (2 ^ 52 :: real)"
  by (simp add: power_int_diff)

lemma double_nonzero:
  "x \<noteq> 0 \<Longrightarrow>
   double x = real_of_int (roundTiesToEven (x / 2 powi (exponent 1100 \<bar>x\<bar> - 52)))
                * 2 powi (exponent 1100 \<bar>x\<bar> - 52)"
  by (simp add: double_def Let_def)

lemma double_binade_error:
  assumes "x \<noteq> 0"
  shows "\<bar>double x - x\<bar> \<le> 2 powi (exponent 1100 \<bar>x\<bar> - 52) / 2"
proof -
  define u :: real where "u = 2 powi (exponent 1100 \<bar>x\<bar> - 52)"
  have u: "0 < u" by (simp add: u_def)
  define t where "t = x / u"
  define r where "r = real_of_int (roundTiesToEven t)"
  have x: "x = t * u" using u by (simp add: t_def)
  have d: "double x = r * u"
    using double_nonzero [OF assms] by (simp add: u_def t_def r_def)
  have "double x - x = r * u - t * u" using d x by linarith
  also have "\<dots> = (r - t) * u" by (simp add: algebra_simps)
  finally have "\<bar>double x - x\<bar> = \<bar>r - t\<bar> * u"
    using u by (simp add: abs_mult)
  also have "\<dots> \<le> 1 / 2 * u"
    using roundTiesToEven_error [of t] u unfolding r_def by (intro mult_right_mono) simp_all
  finally show ?thesis by (simp add: u_def)
qed

lemma double_nonpos: assumes "x < 0" shows "double x \<le> 0"
proof -
  define u :: real where "u = 2 powi (exponent 1100 \<bar>x\<bar> - 52)"
  have u: "0 < u" by (simp add: u_def)
  with assms have "x / u \<le> real_of_int 0" by (simp add: divide_nonpos_pos)
  then have "roundTiesToEven (x / u) \<le> 0" by (rule roundTiesToEven_le)
  then have "real_of_int (roundTiesToEven (x / u)) * u \<le> 0"
    using u by (simp add: mult_le_0_iff)
  with assms show ?thesis using double_nonzero [of x] by (simp add: u_def)
qed

lemma double_ge4: assumes "4 \<le> x" shows "4 \<le> double x"
proof -
  define e where "e = exponent 1100 \<bar>x\<bar>"
  have ax: "\<bar>x\<bar> = x" using assms by simp
  have e2: "2 \<le> e" using exponent_ge4 [OF assms] by (simp add: e_def ax)
  have q: "1 \<le> x / 2 powi e" using exponent_large [of x 1100] assms by (simp add: e_def ax)
  define c :: real where "c = 2 ^ 52"
  have c: "0 < c" and ci: "c = real_of_int (2 ^ 52)" by (simp_all add: c_def)
  define u :: real where "u = 2 powi (e - 52)"
  have u: "0 < u" by (simp add: u_def)
  have ue: "u = 2 powi e / c" by (simp add: u_def ulp_eq c_def)
  define r where "r = real_of_int (roundTiesToEven (x / u))"
  have xu: "x / u = x / 2 powi e * c" by (simp add: ue)
  have "1 * c \<le> x / 2 powi e * c" using q c by (intro mult_right_mono) simp_all
  then have "real_of_int (2 ^ 52) \<le> x / u" by (simp only: xu ci mult_1)
  then have "2 ^ 52 \<le> roundTiesToEven (x / u)" by (rule roundTiesToEven_ge)
  then have "c \<le> r" unfolding r_def ci by (simp only: of_int_le_iff)
  then have "c * u \<le> r * u" using u by (intro mult_right_mono) simp_all
  moreover have "c * u = 2 powi e" using c by (simp add: ue)
  moreover have "(2::real) powi 2 \<le> 2 powi e" using e2 by (intro power_int_increasing) simp_all
  moreover have "double x = r * u"
    using double_nonzero [of x] assms by (simp add: u_def e_def r_def)
  ultimately show ?thesis by simp
qed

lemma double_lt_quarter: assumes "0 < x" and "x < 1 / 4" shows "double x \<le> 1 / 4"
proof -
  define e where "e = exponent 1100 \<bar>x\<bar>"
  have ax: "\<bar>x\<bar> = x" using assms by simp
  have e3: "e \<le> - 3" using exponent_lt_quarter [OF assms] by (simp add: e_def ax)
  have q: "x / 2 powi e < 2" using exponent_small [of x 1100] assms by (simp add: e_def ax)
  define c :: real where "c = 2 ^ 52"
  have c: "0 < c" and ci: "2 * c = real_of_int (2 ^ 53)" by (simp_all add: c_def)
  define u :: real where "u = 2 powi (e - 52)"
  have u: "0 < u" by (simp add: u_def)
  have ue: "u = 2 powi e / c" by (simp add: u_def ulp_eq c_def)
  define r where "r = real_of_int (roundTiesToEven (x / u))"
  have xu: "x / u = x / 2 powi e * c" by (simp add: ue)
  have "x / 2 powi e * c \<le> 2 * c" using q c by (intro mult_right_mono) simp_all
  then have "x / u \<le> real_of_int (2 ^ 53)" by (simp only: xu ci)
  then have "roundTiesToEven (x / u) \<le> 2 ^ 53" by (rule roundTiesToEven_le)
  then have "r \<le> 2 * c" unfolding r_def ci by (simp only: of_int_le_iff)
  then have "r * u \<le> 2 * c * u" using u by (intro mult_right_mono) simp_all
  moreover have "2 * c * u = 2 * 2 powi e" using c by (simp add: ue)
  moreover have "(2::real) powi e \<le> 2 powi (- 3)" using e3 by (intro power_int_increasing) simp_all
  moreover have "double x = r * u"
    using double_nonzero [of x] assms by (simp add: u_def e_def r_def)
  ultimately show ?thesis by simp
qed

lemma double_error_in_range:
  assumes "1 / 2 \<le> double y" and "double y \<le> 2"
  shows "\<bar>double y - y\<bar> \<le> 1 / 2 ^ 52"
proof -
  have pos: "0 < y"
  proof (rule ccontr)
    assume "\<not> 0 < y"
    then consider "y = 0" | "y < 0" by linarith
    then have "double y \<le> 0"
    proof cases
      case 1
      then show ?thesis by (simp add: double_def)
    next
      case 2
      then show ?thesis by (rule double_nonpos)
    qed
    with assms(1) show False by simp
  qed
  have lo: "1 / 4 \<le> y"
  proof (rule ccontr)
    assume "\<not> 1 / 4 \<le> y"
    with pos double_lt_quarter [of y] have "double y \<le> 1 / 4" by simp
    with assms(1) show False by simp
  qed
  have hi: "y < 4"
  proof (rule ccontr)
    assume "\<not> y < 4"
    with double_ge4 [of y] have "4 \<le> double y" by simp
    with assms(2) show False by simp
  qed
  have ay: "\<bar>y\<bar> = y" and nz: "y \<noteq> 0" using pos by simp_all
  have e: "exponent 1100 \<bar>y\<bar> \<le> 1"
    using lo hi exponent_binade [of y] unfolding ay
    by (cases "y < 1 / 2"; cases "y < 1"; cases "y < 2") simp_all
  have "\<bar>double y - y\<bar> \<le> 2 powi (exponent 1100 \<bar>y\<bar> - 52) / 2"
    by (rule double_binade_error [OF nz])
  also have "\<dots> \<le> 2 powi (1 - 52) / 2"
    using e by (intro divide_right_mono power_int_increasing) simp_all
  also have "\<dots> = 1 / 2 ^ 52" by (simp add: power_int_minus_divide)
  finally show ?thesis .
qed

lemma double_error_below_2:
  assumes "\<bar>x\<bar> < 2"
  shows "\<bar>double x - x\<bar> \<le> 1 / 2 ^ 53"
proof (cases "x = 0")
  case True
  then show ?thesis by (simp add: double_def)
next
  case False
  then have "0 < \<bar>x\<bar>" by simp
  from exponent_small [OF this assms, of 1100] have e: "exponent 1100 \<bar>x\<bar> \<le> 0" by simp
  have "\<bar>double x - x\<bar> \<le> 2 powi (exponent 1100 \<bar>x\<bar> - 52) / 2"
    by (rule double_binade_error [OF False])
  also have "\<dots> \<le> 2 powi (0 - 52) / 2"
    using e by (intro divide_right_mono power_int_increasing) simp_all
  also have "\<dots> = 1 / 2 ^ 53" by (simp add: power_int_minus_divide)
  finally show ?thesis .
qed

lemma rounded_difference:
  assumes "1 / 2 \<le> a" "a \<le> 2" "1 / 2 \<le> b" "b \<le> 2" and "\<bar>b - a - k\<bar> \<le> 1 / 2 ^ 52"
  shows "\<bar>double (b - a) - k\<bar> \<le> 3 / 2 ^ 53"
proof -
  from assms(1-4) have "\<bar>b - a\<bar> < 2" by (simp add: abs_less_iff)
  from double_error_below_2 [OF this] have p: "\<bar>double (b - a) - (b - a)\<bar> \<le> 1 / 2 ^ 53" .
  have "double (b - a) - k = (double (b - a) - (b - a)) + (b - a - k)" by simp
  then have "\<bar>double (b - a) - k\<bar> \<le> \<bar>double (b - a) - (b - a)\<bar> + \<bar>b - a - k\<bar>"
    by (simp only: abs_triangle_ineq)
  also have "\<dots> \<le> 1 / 2 ^ 53 + 1 / 2 ^ 52" using p assms(5) by (rule add_mono)
  also have "\<dots> = 3 / 2 ^ 53" by simp
  finally show ?thesis .
qed

lemma changeLeftZoom64_fields:
  "leftScale (changeLeftZoom64 d s) = max 0.5 (min 2 (double (leftScale s + d)))"
  "rightScale (changeLeftZoom64 d s) =
     (if syncZoom s then double (max 0.5 (min 2 (double (leftScale s + d))) + zoomDiff s)
      else rightScale s)"
  by (simp_all add: changeLeftZoom64_def Let_def)

lemma changeRightZoom64_fields:
  "rightScale (changeRightZoom64 d s) = max 0.5 (min 2 (double (rightScale s + d)))"
  "leftScale (changeRightZoom64 d s) =
     (if syncZoom s then double (max 0.5 (min 2 (double (rightScale s + d))) - zoomDiff s)
      else leftScale s)"
  by (simp_all add: changeRightZoom64_def Let_def)

text \<open>
  Claim C4, amended.  With zoom linking on and the stored offset \<open>k\<close>, take a zoom change
  on one side after which neither scale was clamped: the rounded sum of the driven side
  lies between 0.5 and 2, and so does the scale written to the linked side.  Then the
  driven scale is the rounded sum, the linked scale is the rounded \<open>newScale + k\<close> (left
  drives) or \<open>newScale - k\<close> (right drives), and \<open>rightScale - leftScale\<close>, taken exactly,
  differs from \<open>k\<close> by at most \<open>1 / 2 ^ 52\<close>, the rounding of that one linked write; it is
  \<open>k\<close> itself exactly when the linked sum is representable.  The difference as the code
  computes it, \<^verbatim>\<open>rightScale - leftScale\<close> rounded, differs from \<open>k\<close> by at most
  \<open>3 / 2 ^ 53\<close>.
\<close>

theorem linked_zoom_offset_up_to_rounding:
  assumes "syncZoom s" and "zoomDiff s = k"
  shows "(0.5 \<le> double (leftScale s + delta) \<and> double (leftScale s + delta) \<le> 2
          \<and> 0.5 \<le> rightScale (changeLeftZoom64 delta s) \<and> rightScale (changeLeftZoom64 delta s) \<le> 2
          \<longrightarrow> leftScale (changeLeftZoom64 delta s) = double (leftScale s + delta)
            \<and> rightScale (changeLeftZoom64 delta s) = double (leftScale (changeLeftZoom64 delta s) + k)
            \<and> \<bar>rightScale (changeLeftZoom64 delta s) - leftScale (changeLeftZoom64 delta s) - k\<bar>
                 \<le> 1 / 2 ^ 52
            \<and> (rightScale (changeLeftZoom64 delta s) - leftScale (changeLeftZoom64 delta s) = k
                 \<longleftrightarrow> double (leftScale (changeLeftZoom64 delta s) + k)
                       = leftScale (changeLeftZoom64 delta s) + k)
            \<and> \<bar>double (rightScale (changeLeftZoom64 delta s) - leftScale (changeLeftZoom64 delta s)) - k\<bar>
                 \<le> 3 / 2 ^ 53)
       \<and> (0.5 \<le> double (rightScale s + delta) \<and> double (rightScale s + delta) \<le> 2
          \<and> 0.5 \<le> leftScale (changeRightZoom64 delta s) \<and> leftScale (changeRightZoom64 delta s) \<le> 2
          \<longrightarrow> rightScale (changeRightZoom64 delta s) = double (rightScale s + delta)
            \<and> leftScale (changeRightZoom64 delta s) = double (rightScale (changeRightZoom64 delta s) - k)
            \<and> \<bar>rightScale (changeRightZoom64 delta s) - leftScale (changeRightZoom64 delta s) - k\<bar>
                 \<le> 1 / 2 ^ 52
            \<and> (rightScale (changeRightZoom64 delta s) - leftScale (changeRightZoom64 delta s) = k
                 \<longleftrightarrow> double (rightScale (changeRightZoom64 delta s) - k)
                       = rightScale (changeRightZoom64 delta s) - k)
            \<and> \<bar>double (rightScale (changeRightZoom64 delta s) - leftScale (changeRightZoom64 delta s)) - k\<bar>
                 \<le> 3 / 2 ^ 53)"
proof -
  let ?l = "changeLeftZoom64 delta s" and ?r = "changeRightZoom64 delta s"
  have left: "leftScale ?l = double (leftScale s + delta)
      \<and> rightScale ?l = double (leftScale ?l + k)
      \<and> \<bar>rightScale ?l - leftScale ?l - k\<bar> \<le> 1 / 2 ^ 52
      \<and> (rightScale ?l - leftScale ?l = k \<longleftrightarrow> double (leftScale ?l + k) = leftScale ?l + k)
      \<and> \<bar>double (rightScale ?l - leftScale ?l) - k\<bar> \<le> 3 / 2 ^ 53"
    if a: "0.5 \<le> double (leftScale s + delta)" "double (leftScale s + delta) \<le> 2"
      and b: "0.5 \<le> rightScale ?l" "rightScale ?l \<le> 2"
  proof -
    have n: "leftScale ?l = double (leftScale s + delta)"
      using a by (simp add: changeLeftZoom64_fields)
    have d: "rightScale ?l = double (leftScale ?l + k)"
      using assms by (simp add: changeLeftZoom64_fields)
    from b have "1 / 2 \<le> double (leftScale ?l + k)" "double (leftScale ?l + k) \<le> 2"
      unfolding d by simp_all
    from double_error_in_range [OF this]
    have e: "\<bar>rightScale ?l - leftScale ?l - k\<bar> \<le> 1 / 2 ^ 52"
      unfolding d by (simp add: algebra_simps)
    have x: "rightScale ?l - leftScale ?l = k \<longleftrightarrow> double (leftScale ?l + k) = leftScale ?l + k"
      using d by linarith
    from a b have "1 / 2 \<le> leftScale ?l" "leftScale ?l \<le> 2" "1 / 2 \<le> rightScale ?l" "rightScale ?l \<le> 2"
      unfolding n by simp_all
    from rounded_difference [OF this e]
    have f: "\<bar>double (rightScale ?l - leftScale ?l) - k\<bar> \<le> 3 / 2 ^ 53" .
    from n d e x f show ?thesis by blast
  qed
  have right: "rightScale ?r = double (rightScale s + delta)
      \<and> leftScale ?r = double (rightScale ?r - k)
      \<and> \<bar>rightScale ?r - leftScale ?r - k\<bar> \<le> 1 / 2 ^ 52
      \<and> (rightScale ?r - leftScale ?r = k \<longleftrightarrow> double (rightScale ?r - k) = rightScale ?r - k)
      \<and> \<bar>double (rightScale ?r - leftScale ?r) - k\<bar> \<le> 3 / 2 ^ 53"
    if a: "0.5 \<le> double (rightScale s + delta)" "double (rightScale s + delta) \<le> 2"
      and b: "0.5 \<le> leftScale ?r" "leftScale ?r \<le> 2"
  proof -
    have n: "rightScale ?r = double (rightScale s + delta)"
      using a by (simp add: changeRightZoom64_fields)
    have d: "leftScale ?r = double (rightScale ?r - k)"
      using assms by (simp add: changeRightZoom64_fields)
    from b have "1 / 2 \<le> double (rightScale ?r - k)" "double (rightScale ?r - k) \<le> 2"
      unfolding d by simp_all
    from double_error_in_range [OF this]
    have "\<bar>double (rightScale ?r - k) - (rightScale ?r - k)\<bar> \<le> 1 / 2 ^ 52" .
    then have e: "\<bar>rightScale ?r - leftScale ?r - k\<bar> \<le> 1 / 2 ^ 52"
      unfolding d by (simp only: abs_minus_commute)
    have x: "rightScale ?r - leftScale ?r = k \<longleftrightarrow> double (rightScale ?r - k) = rightScale ?r - k"
      using d by linarith
    from a b have "1 / 2 \<le> leftScale ?r" "leftScale ?r \<le> 2" "1 / 2 \<le> rightScale ?r" "rightScale ?r \<le> 2"
      unfolding n by simp_all
    from rounded_difference [OF this e]
    have f: "\<bar>double (rightScale ?r - leftScale ?r) - k\<bar> \<le> 3 / 2 ^ 53" .
    from n d e x f show ?thesis by blast
  qed
  from left right show ?thesis by blast
qed


text \<open>
  From the initial state of either variant: unlink, right plus, link.  The right scale is
  the binary64 number 1.1 and the stored offset \<open>1.1 - 1\<close>, which prints as
  0.10000000000000009.
\<close>

lemmas double_eval64 = double_eval changeLeftZoom64_def changeRightZoom64_def zoomClick64_def
  zoomClicks64_def zoomDiffEffect64_def zoomDiffDepsChanged_def panelScrollEffect_def
  toggleSyncZoom_def initialApp_def

lemma linked_after_one_step:
  "zoomClicks64 v [ZoomLink, RightPlus, ZoomLink] (initialApp now) =
     (initialApp now)\<lparr> rightScale := 4953959590107546 / 2 ^ 52,
                        zoomDiff := 900719925474100 / 2 ^ 53 \<rparr>"
  by (cases v) (simp_all add: double_eval64)

text \<open>
  Claim C4 as stated fails in the arithmetic of the code.  In the state above, linked, a
  click on left minus is not clamped on either side: the left scale becomes the binary64
  number 0.9 and the right scale \<open>0.9 + k\<close> rounded, a tie that goes to 1.  The difference
  of the two scales prints as 0.09999999999999998, one unit of \<open>1 / 2 ^ 53\<close> below the
  stored offset.
\<close>

theorem linked_zoom_offset_not_exact:
  "syncZoom (zoomClicks64 AppTsx [ZoomLink, RightPlus, ZoomLink] (initialApp 0))
   \<and> zoomDiff (zoomClicks64 AppTsx [ZoomLink, RightPlus, ZoomLink] (initialApp 0))
       = 900719925474100 / 2 ^ 53
   \<and> double (leftScale (zoomClicks64 AppTsx [ZoomLink, RightPlus, ZoomLink] (initialApp 0))
         + - double 0.1) = 8106479329266893 / 2 ^ 53
   \<and> leftScale (changeLeftZoom64 (- double 0.1)
        (zoomClicks64 AppTsx [ZoomLink, RightPlus, ZoomLink] (initialApp 0)))
       = 8106479329266893 / 2 ^ 53
   \<and> rightScale (changeLeftZoom64 (- double 0.1)
        (zoomClicks64 AppTsx [ZoomLink, RightPlus, ZoomLink] (initialApp 0))) = 1
   \<and> rightScale (changeLeftZoom64 (- double 0.1)
        (zoomClicks64 AppTsx [ZoomLink, RightPlus, ZoomLink] (initialApp 0)))
     - leftScale (changeLeftZoom64 (- double 0.1)
        (zoomClicks64 AppTsx [ZoomLink, RightPlus, ZoomLink] (initialApp 0)))
       = 900719925474099 / 2 ^ 53
   \<and> rightScale (changeLeftZoom64 (- double 0.1)
        (zoomClicks64 AppTsx [ZoomLink, RightPlus, ZoomLink] (initialApp 0)))
     - leftScale (changeLeftZoom64 (- double 0.1)
        (zoomClicks64 AppTsx [ZoomLink, RightPlus, ZoomLink] (initialApp 0)))
       \<noteq> zoomDiff (zoomClicks64 AppTsx [ZoomLink, RightPlus, ZoomLink] (initialApp 0))"
  unfolding linked_after_one_step
  by (simp add: double_eval changeLeftZoom64_def initialApp_def)

text \<open>The same click: the difference is within the bound of the offset.\<close>

theorem linked_zoom_offset_up_to_rounding_witness:
  "syncZoom (zoomClicks64 AppTsx [ZoomLink, RightPlus, ZoomLink] (initialApp 0))
   \<and> \<bar>rightScale (changeLeftZoom64 (- double 0.1)
        (zoomClicks64 AppTsx [ZoomLink, RightPlus, ZoomLink] (initialApp 0)))
     - leftScale (changeLeftZoom64 (- double 0.1)
        (zoomClicks64 AppTsx [ZoomLink, RightPlus, ZoomLink] (initialApp 0)))
     - 900719925474100 / 2 ^ 53\<bar> \<le> 1 / 2 ^ 52"
proof -
  let ?s = "zoomClicks64 AppTsx [ZoomLink, RightPlus, ZoomLink] (initialApp 0)"
  have a: "syncZoom ?s" "zoomDiff ?s = 900719925474100 / 2 ^ 53"
    unfolding linked_after_one_step by (simp_all add: initialApp_def)
  have b: "0.5 \<le> double (leftScale ?s + - double 0.1)" "double (leftScale ?s + - double 0.1) \<le> 2"
    "0.5 \<le> rightScale (changeLeftZoom64 (- double 0.1) ?s)"
    "rightScale (changeLeftZoom64 (- double 0.1) ?s) \<le> 2"
    unfolding linked_after_one_step
    by (simp_all add: double_eval changeLeftZoom64_def initialApp_def)
  from linked_zoom_offset_up_to_rounding [OF a, of "- double 0.1"] b a(1)
  show ?thesis by blast
qed

section \<open>Scroll linking and the echo latch\<close>

lemma onLeftScroll_skip: "\<not> syncScroll s \<or> isSyncing s \<Longrightarrow> onLeftScroll v s = s"
  by (simp add: onLeftScroll_def)

lemma onRightScroll_skip: "\<not> syncScroll s \<or> isSyncing s \<Longrightarrow> onRightScroll v s = s"
  by (simp add: onRightScroll_def)

lemma onLeftScroll_fields:
  assumes "syncScroll s" and "\<not> isSyncing s"
  shows "isSyncing (onLeftScroll v s)"
    and "syncScroll (onLeftScroll v s)"
    and "timers (onLeftScroll v s) = Suc (timers s)"
    and "leftScrollTop (onLeftScroll v s) = leftScrollTop s"
    and "rightScrollTop (onLeftScroll v s) = (if rightContainerRef s then v + scrollDiff s else rightScrollTop s)"
    and "writes (onLeftScroll v s) =
          (if rightContainerRef s then writes s @ [(Right, v + scrollDiff s)] else writes s)"
  using assms by (simp_all add: onLeftScroll_def Let_def)

lemma onRightScroll_fields:
  assumes "syncScroll s" and "\<not> isSyncing s"
  shows "isSyncing (onRightScroll v s)"
    and "syncScroll (onRightScroll v s)"
    and "timers (onRightScroll v s) = Suc (timers s)"
    and "rightScrollTop (onRightScroll v s) = rightScrollTop s"
    and "leftScrollTop (onRightScroll v s) = (if leftContainerRef s then v - scrollDiff s else leftScrollTop s)"
    and "writes (onRightScroll v s) =
          (if leftContainerRef s then writes s @ [(Left, v - scrollDiff s)] else writes s)"
  using assms by (simp_all add: onRightScroll_def Let_def)

lemma timeout_fields:
  "0 < timers s \<Longrightarrow> \<not> isSyncing (timeout s)"
  "0 < timers s \<Longrightarrow> timers (timeout s) = timers s - 1"
  "writes (timeout s) = writes s"
  by (simp_all add: timeout_def)


text \<open>
  What a scroll event does to the latch, the timers and the log, through the listeners of
  the panel and the effects of the next render.
\<close>

lemma mirror_keeps:
  "writes (onLeft s) = writes s" "writes (onRight s) = writes s"
  "isSyncing (onLeft s) = isSyncing s" "isSyncing (onRight s) = isSyncing s"
  "timers (onLeft s) = timers s" "timers (onRight s) = timers s"
  by (simp_all add: onLeft_def onRight_def)

lemma scrollEvent_keeps:
  "writes (scrollEvent Left s) =
     (if leftContainerRef s then writes (onLeftScroll (leftScrollTop s) s) else writes s)"
  "isSyncing (scrollEvent Left s) =
     (if leftContainerRef s then isSyncing (onLeftScroll (leftScrollTop s) s) else isSyncing s)"
  "timers (scrollEvent Left s) =
     (if leftContainerRef s then timers (onLeftScroll (leftScrollTop s) s) else timers s)"
  "writes (scrollEvent Right s) =
     (if rightContainerRef s then writes (onRightScroll (rightScrollTop s) s) else writes s)"
  "isSyncing (scrollEvent Right s) =
     (if rightContainerRef s then isSyncing (onRightScroll (rightScrollTop s) s) else isSyncing s)"
  "timers (scrollEvent Right s) =
     (if rightContainerRef s then timers (onRightScroll (rightScrollTop s) s) else timers s)"
  by (simp_all add: scrollEvent_def Let_def mirror_keeps)

lemma effects_keep:
  "writes (runEffects var prev cur) = writes cur"
  "isSyncing (runEffects var prev cur) = isSyncing cur"
  "timers (runEffects var prev cur) = timers cur"
  "writes (panelScrollEffect prev cur) = writes cur"
  "isSyncing (panelScrollEffect prev cur) = isSyncing cur"
  "timers (panelScrollEffect prev cur) = timers cur"
  by (simp_all add: runEffects_def panelScrollEffect_def sync_def Let_def split: option.splits)

lemma step_keeps:
  "writes (step var ev s) = writes (handle ev s)"
  "isSyncing (step var ev s) = isSyncing (handle ev s)"
  "timers (step var ev s) = timers (handle ev s)"
  by (simp_all add: step_def Let_def effects_keep)

lemma step_UserScroll_latch:
  assumes "syncScroll s" and "\<not> isSyncing s"
  shows "leftContainerRef s \<Longrightarrow>
           writes (step var (UserScroll Left v) s) =
             (if rightContainerRef s then writes s @ [(Right, v + scrollDiff s)] else writes s)"
    and "leftContainerRef s \<Longrightarrow> isSyncing (step var (UserScroll Left v) s)"
    and "leftContainerRef s \<Longrightarrow> timers (step var (UserScroll Left v) s) = Suc (timers s)"
    and "rightContainerRef s \<Longrightarrow>
           writes (step var (UserScroll Right v) s) =
             (if leftContainerRef s then writes s @ [(Left, v - scrollDiff s)] else writes s)"
    and "rightContainerRef s \<Longrightarrow> isSyncing (step var (UserScroll Right v) s)"
    and "rightContainerRef s \<Longrightarrow> timers (step var (UserScroll Right v) s) = Suc (timers s)"
proof -
  let ?l = "s\<lparr> leftScrollTop := v \<rparr>" and ?r = "s\<lparr> rightScrollTop := v \<rparr>"
  have l: "syncScroll ?l" "\<not> isSyncing ?l" and r: "syncScroll ?r" "\<not> isSyncing ?r"
    using assms by simp_all
  have refs: "leftContainerRef ?l = leftContainerRef s" "rightContainerRef ?l = rightContainerRef s"
    "leftContainerRef ?r = leftContainerRef s" "rightContainerRef ?r = rightContainerRef s"
    by (simp_all add: leftContainerRef_def rightContainerRef_def)
  show "leftContainerRef s \<Longrightarrow>
           writes (step var (UserScroll Left v) s) =
             (if rightContainerRef s then writes s @ [(Right, v + scrollDiff s)] else writes s)"
    by (simp add: step_keeps handle_def scrollEvent_keeps onLeftScroll_fields [OF l] refs)
  show "leftContainerRef s \<Longrightarrow> isSyncing (step var (UserScroll Left v) s)"
    by (simp add: step_keeps handle_def scrollEvent_keeps onLeftScroll_fields [OF l] refs)
  show "leftContainerRef s \<Longrightarrow> timers (step var (UserScroll Left v) s) = Suc (timers s)"
    by (simp add: step_keeps handle_def scrollEvent_keeps onLeftScroll_fields [OF l] refs)
  show "rightContainerRef s \<Longrightarrow>
           writes (step var (UserScroll Right v) s) =
             (if leftContainerRef s then writes s @ [(Left, v - scrollDiff s)] else writes s)"
    by (simp add: step_keeps handle_def scrollEvent_keeps onRightScroll_fields [OF r] refs)
  show "rightContainerRef s \<Longrightarrow> isSyncing (step var (UserScroll Right v) s)"
    by (simp add: step_keeps handle_def scrollEvent_keeps onRightScroll_fields [OF r] refs)
  show "rightContainerRef s \<Longrightarrow> timers (step var (UserScroll Right v) s) = Suc (timers s)"
    by (simp add: step_keeps handle_def scrollEvent_keeps onRightScroll_fields [OF r] refs)
qed

lemma step_EchoScroll_latched:
  assumes "isSyncing x"
  shows "writes (step var (EchoScroll sd) x) = writes x"
    and "isSyncing (step var (EchoScroll sd) x)"
    and "timers (step var (EchoScroll sd) x) = timers x"
  using assms
  by (cases sd; simp add: step_keeps handle_def scrollEvent_keeps onLeftScroll_skip
      onRightScroll_skip)+

lemma step_Timeout:
  "writes (step var Timeout x) = writes x"
  "0 < timers x \<Longrightarrow> \<not> isSyncing (step var Timeout x)"
  by (simp_all add: step_keeps handle_def timeout_fields)

lemma echo_before_timer:
  assumes "syncScroll s" and "\<not> isSyncing s" and "leftContainerRef s" and "rightContainerRef s"
  shows "writes (run var [UserScroll Left v, EchoScroll Right] s) = writes s @ [(Right, v + scrollDiff s)]"
    and "writes (run var [UserScroll Left v, EchoScroll Right, Timeout] s)
           = writes s @ [(Right, v + scrollDiff s)]"
    and "\<not> isSyncing (run var [UserScroll Left v, EchoScroll Right, Timeout] s)"
    and "writes (run var [UserScroll Right v, EchoScroll Left] s) = writes s @ [(Left, v - scrollDiff s)]"
    and "writes (run var [UserScroll Right v, EchoScroll Left, Timeout] s)
           = writes s @ [(Left, v - scrollDiff s)]"
    and "\<not> isSyncing (run var [UserScroll Right v, EchoScroll Left, Timeout] s)"
proof -
  note u = step_UserScroll_latch [OF assms(1,2)]
  let ?a = "step var (UserScroll Left v) s" and ?b = "step var (UserScroll Right v) s"
  have a: "isSyncing ?a" "timers ?a = Suc (timers s)"
    "writes ?a = writes s @ [(Right, v + scrollDiff s)]"
    using u(1-3) [of var v] assms(3,4) by simp_all
  have b: "isSyncing ?b" "timers ?b = Suc (timers s)"
    "writes ?b = writes s @ [(Left, v - scrollDiff s)]"
    using u(4-6) [of var v] assms(3,4) by simp_all
  have ta: "0 < timers (step var (EchoScroll Right) ?a)"
    using step_EchoScroll_latched(3) [OF a(1), of var Right] a(2) by simp
  have tb: "0 < timers (step var (EchoScroll Left) ?b)"
    using step_EchoScroll_latched(3) [OF b(1), of var Left] b(2) by simp
  show "writes (run var [UserScroll Left v, EchoScroll Right] s) = writes s @ [(Right, v + scrollDiff s)]"
    by (simp add: run_Cons run_Nil step_EchoScroll_latched(1) [OF a(1)] a(3))
  show "writes (run var [UserScroll Left v, EchoScroll Right, Timeout] s)
           = writes s @ [(Right, v + scrollDiff s)]"
    by (simp add: run_Cons run_Nil step_Timeout(1) step_EchoScroll_latched(1) [OF a(1)] a(3))
  show "\<not> isSyncing (run var [UserScroll Left v, EchoScroll Right, Timeout] s)"
    using step_Timeout(2) [OF ta] by (simp add: run_Cons run_Nil)
  show "writes (run var [UserScroll Right v, EchoScroll Left] s) = writes s @ [(Left, v - scrollDiff s)]"
    by (simp add: run_Cons run_Nil step_EchoScroll_latched(1) [OF b(1)] b(3))
  show "writes (run var [UserScroll Right v, EchoScroll Left, Timeout] s)
           = writes s @ [(Left, v - scrollDiff s)]"
    by (simp add: run_Cons run_Nil step_Timeout(1) step_EchoScroll_latched(1) [OF b(1)] b(3))
  show "\<not> isSyncing (run var [UserScroll Right v, EchoScroll Left, Timeout] s)"
    using step_Timeout(2) [OF tb] by (simp add: run_Cons run_Nil)
qed

text \<open>
  Claim C3, amended.  With scroll linking on and the latch clear, the handler of a scroll
  event on one container appends exactly one write to the log, of the driver's
  \<open>scrollTop\<close> plus the offset on the right container (minus the offset on the left one),
  when the paired container exists, and none when it does not.  With linking off or the
  latch set the handler changes nothing.  The handler leaves the latch set and one timer
  pending, so the handler of the scroll event that echoes its write, and of any other
  scroll event handled before the timer callback runs, changes nothing; the timer callback
  clears the latch and writes nothing.  With both containers present, the events user scroll, echo,
  timer leave exactly that one write in the log and the latch clear.
\<close>

theorem scroll_echo_guard:
  "(syncScroll s \<and> \<not> isSyncing s \<and> rightContainerRef s
      \<longrightarrow> writes (onLeftScroll v s) = writes s @ [(Right, v + scrollDiff s)]
        \<and> rightScrollTop (onLeftScroll v s) = v + scrollDiff s)
   \<and> (syncScroll s \<and> \<not> isSyncing s \<and> leftContainerRef s
      \<longrightarrow> writes (onRightScroll v s) = writes s @ [(Left, v - scrollDiff s)]
        \<and> leftScrollTop (onRightScroll v s) = v - scrollDiff s)
   \<and> (syncScroll s \<and> \<not> isSyncing s \<and> \<not> rightContainerRef s
      \<longrightarrow> writes (onLeftScroll v s) = writes s)
   \<and> (syncScroll s \<and> \<not> isSyncing s \<and> \<not> leftContainerRef s
      \<longrightarrow> writes (onRightScroll v s) = writes s)
   \<and> (\<not> syncScroll s \<or> isSyncing s \<longrightarrow> onLeftScroll v s = s \<and> onRightScroll v s = s)
   \<and> (syncScroll s \<and> \<not> isSyncing s
      \<longrightarrow> onRightScroll w (onLeftScroll v s) = onLeftScroll v s
        \<and> onLeftScroll w (onLeftScroll v s) = onLeftScroll v s
        \<and> onLeftScroll w (onRightScroll v s) = onRightScroll v s
        \<and> onRightScroll w (onRightScroll v s) = onRightScroll v s)
   \<and> (syncScroll s \<and> \<not> isSyncing s
      \<longrightarrow> isSyncing (onLeftScroll v s) \<and> timers (onLeftScroll v s) = Suc (timers s)
        \<and> \<not> isSyncing (timeout (onLeftScroll v s))
        \<and> timers (timeout (onLeftScroll v s)) = timers s
        \<and> writes (timeout (onLeftScroll v s)) = writes (onLeftScroll v s)
        \<and> isSyncing (onRightScroll v s) \<and> timers (onRightScroll v s) = Suc (timers s)
        \<and> \<not> isSyncing (timeout (onRightScroll v s))
        \<and> timers (timeout (onRightScroll v s)) = timers s
        \<and> writes (timeout (onRightScroll v s)) = writes (onRightScroll v s))
   \<and> (syncScroll s \<and> \<not> isSyncing s \<and> leftContainerRef s \<and> rightContainerRef s
      \<longrightarrow> writes (run var [UserScroll Left v, EchoScroll Right] s)
            = writes s @ [(Right, v + scrollDiff s)]
        \<and> writes (run var [UserScroll Left v, EchoScroll Right, Timeout] s)
            = writes s @ [(Right, v + scrollDiff s)]
        \<and> \<not> isSyncing (run var [UserScroll Left v, EchoScroll Right, Timeout] s)
        \<and> writes (run var [UserScroll Right v, EchoScroll Left] s)
            = writes s @ [(Left, v - scrollDiff s)]
        \<and> writes (run var [UserScroll Right v, EchoScroll Left, Timeout] s)
            = writes s @ [(Left, v - scrollDiff s)]
        \<and> \<not> isSyncing (run var [UserScroll Right v, EchoScroll Left, Timeout] s))"
proof -
  have events: "writes (run var [UserScroll Left v, EchoScroll Right] s)
            = writes s @ [(Right, v + scrollDiff s)]
        \<and> writes (run var [UserScroll Left v, EchoScroll Right, Timeout] s)
            = writes s @ [(Right, v + scrollDiff s)]
        \<and> \<not> isSyncing (run var [UserScroll Left v, EchoScroll Right, Timeout] s)
        \<and> writes (run var [UserScroll Right v, EchoScroll Left] s)
            = writes s @ [(Left, v - scrollDiff s)]
        \<and> writes (run var [UserScroll Right v, EchoScroll Left, Timeout] s)
            = writes s @ [(Left, v - scrollDiff s)]
        \<and> \<not> isSyncing (run var [UserScroll Right v, EchoScroll Left, Timeout] s)"
    if "syncScroll s" "\<not> isSyncing s" "leftContainerRef s" "rightContainerRef s"
    using echo_before_timer [OF that] by blast
  have echo: "onRightScroll w (onLeftScroll v s) = onLeftScroll v s
        \<and> onLeftScroll w (onLeftScroll v s) = onLeftScroll v s
        \<and> onLeftScroll w (onRightScroll v s) = onRightScroll v s
        \<and> onRightScroll w (onRightScroll v s) = onRightScroll v s"
    if "syncScroll s" "\<not> isSyncing s"
    using onLeftScroll_fields(1) [OF that] onRightScroll_fields(1) [OF that]
    by (simp add: onLeftScroll_skip onRightScroll_skip)
  have latch: "isSyncing (onLeftScroll v s) \<and> timers (onLeftScroll v s) = Suc (timers s)
        \<and> \<not> isSyncing (timeout (onLeftScroll v s))
        \<and> timers (timeout (onLeftScroll v s)) = timers s
        \<and> writes (timeout (onLeftScroll v s)) = writes (onLeftScroll v s)
        \<and> isSyncing (onRightScroll v s) \<and> timers (onRightScroll v s) = Suc (timers s)
        \<and> \<not> isSyncing (timeout (onRightScroll v s))
        \<and> timers (timeout (onRightScroll v s)) = timers s
        \<and> writes (timeout (onRightScroll v s)) = writes (onRightScroll v s)"
    if "syncScroll s" "\<not> isSyncing s"
    using onLeftScroll_fields(1,3) [OF that] onRightScroll_fields(1,3) [OF that]
    by (simp add: timeout_fields)
  have handlers: "(syncScroll s \<and> \<not> isSyncing s \<and> rightContainerRef s
      \<longrightarrow> writes (onLeftScroll v s) = writes s @ [(Right, v + scrollDiff s)]
        \<and> rightScrollTop (onLeftScroll v s) = v + scrollDiff s)
   \<and> (syncScroll s \<and> \<not> isSyncing s \<and> leftContainerRef s
      \<longrightarrow> writes (onRightScroll v s) = writes s @ [(Left, v - scrollDiff s)]
        \<and> leftScrollTop (onRightScroll v s) = v - scrollDiff s)
   \<and> (syncScroll s \<and> \<not> isSyncing s \<and> \<not> rightContainerRef s
      \<longrightarrow> writes (onLeftScroll v s) = writes s)
   \<and> (syncScroll s \<and> \<not> isSyncing s \<and> \<not> leftContainerRef s
      \<longrightarrow> writes (onRightScroll v s) = writes s)
   \<and> (\<not> syncScroll s \<or> isSyncing s \<longrightarrow> onLeftScroll v s = s \<and> onRightScroll v s = s)"
    using onLeftScroll_fields(5,6) [of s v] onRightScroll_fields(5,6) [of s v]
      onLeftScroll_skip [of s v] onRightScroll_skip [of s v]
    by (intro conjI impI; (elim conjE)?; simp)
  from handlers echo latch events show ?thesis by blast
qed

text \<open>Only the left document is loaded, then scroll linking is switched on.\<close>

lemma one_sided_state:
  "run var [FileChosen ''left.pdf'' Left, ToggleSyncScroll] (initialApp 0) =
     (initialApp 0)\<lparr> leftPDF := Some ''left.pdf'', syncScroll := True \<rparr>"
proof -
  let ?a = "(initialApp 0)\<lparr> leftPDF := Some ''left.pdf'' \<rparr>"
  have h1: "handle (FileChosen ''left.pdf'' Left) (initialApp 0) = ?a"
    by (simp add: handle_def handleFileChange_def initialApp_def)
  have s1: "step var (FileChosen ''left.pdf'' Left) (initialApp 0) = ?a"
    unfolding step_def h1 Let_def
    apply (subst panelScrollEffect_hidden)
     apply (simp add: initialApp_def)
    apply (rule runEffects_invariant)
     apply (simp_all add: initialApp_def)
    done
  let ?b = "?a\<lparr> syncScroll := True \<rparr>"
  have h2: "handle ToggleSyncScroll ?a = ?b"
    by (simp add: handle_def toggleSyncScroll_def initialApp_def)
  have sd: "scrollDiffEffect ?a ?b = None"
    by (simp add: scrollDiffEffect_def rightContainerRef_def initialApp_def)
  have zd: "zoomDiffEffect var ?a ?b = None"
    by (cases var) (simp_all add: zoomDiffEffect_def zoomDiffDepsChanged_def)
  have s2: "step var ToggleSyncScroll ?a = ?b"
    unfolding step_def h2 Let_def
    apply (subst panelScrollEffect_hidden)
     apply (simp add: initialApp_def)
    apply (simp add: runEffects_def sd zd)
    done
  show ?thesis
    by (simp add: run_Cons run_Nil s1 s2)
qed

text \<open>
  Claim C3 as stated fails when the paired side holds no document, so that
  \<^verbatim>\<open>rightContainerRef.current\<close> is null: linking is on, the latch is clear, the user scrolls
  the left container to 100, and the handler sets the latch and writes nothing.
\<close>

theorem scroll_without_paired_container:
  "syncScroll (run AppTsx [FileChosen ''left.pdf'' Left, ToggleSyncScroll] (initialApp 0))
   \<and> \<not> isSyncing (run AppTsx [FileChosen ''left.pdf'' Left, ToggleSyncScroll] (initialApp 0))
   \<and> leftContainerRef (run AppTsx [FileChosen ''left.pdf'' Left, ToggleSyncScroll] (initialApp 0))
   \<and> writes (run AppTsx [FileChosen ''left.pdf'' Left, ToggleSyncScroll] (initialApp 0)) = []
   \<and> writes (handle (UserScroll Left 100)
        (run AppTsx [FileChosen ''left.pdf'' Left, ToggleSyncScroll] (initialApp 0))) = []
   \<and> isSyncing (handle (UserScroll Left 100)
        (run AppTsx [FileChosen ''left.pdf'' Left, ToggleSyncScroll] (initialApp 0)))"
  unfolding one_sided_state
  by (simp add: handle_def scrollEvent_def onLeftScroll_def leftContainerRef_def
      rightContainerRef_def Let_def initialApp_def)

text \<open>Both documents loaded, offset 50, the left container scrolled to 100: one write of 150.\<close>

theorem scroll_echo_guard_witness:
  "syncScroll ((initialApp 0)\<lparr> leftPDF := Some ''a.pdf'', rightPDF := Some ''b.pdf'',
        syncScroll := True, scrollDiff := 50 \<rparr>)
   \<and> \<not> isSyncing ((initialApp 0)\<lparr> leftPDF := Some ''a.pdf'', rightPDF := Some ''b.pdf'',
        syncScroll := True, scrollDiff := 50 \<rparr>)
   \<and> rightContainerRef ((initialApp 0)\<lparr> leftPDF := Some ''a.pdf'', rightPDF := Some ''b.pdf'',
        syncScroll := True, scrollDiff := 50 \<rparr>)
   \<and> writes (onLeftScroll 100 ((initialApp 0)\<lparr> leftPDF := Some ''a.pdf'', rightPDF := Some ''b.pdf'',
        syncScroll := True, scrollDiff := 50 \<rparr>)) = [(Right, 150)]
   \<and> onRightScroll 150 (onLeftScroll 100 ((initialApp 0)\<lparr> leftPDF := Some ''a.pdf'',
        rightPDF := Some ''b.pdf'', syncScroll := True, scrollDiff := 50 \<rparr>))
       = onLeftScroll 100 ((initialApp 0)\<lparr> leftPDF := Some ''a.pdf'', rightPDF := Some ''b.pdf'',
        syncScroll := True, scrollDiff := 50 \<rparr>)
   \<and> \<not> isSyncing (timeout (onLeftScroll 100 ((initialApp 0)\<lparr> leftPDF := Some ''a.pdf'',
        rightPDF := Some ''b.pdf'', syncScroll := True, scrollDiff := 50 \<rparr>)))"
proof -
  let ?s = "(initialApp 0)\<lparr> leftPDF := Some ''a.pdf'', rightPDF := Some ''b.pdf'',
        syncScroll := True, scrollDiff := 50 \<rparr>"
  have a: "syncScroll ?s" "\<not> isSyncing ?s" "rightContainerRef ?s" "writes ?s = []"
    "scrollDiff ?s = 50"
    by (simp_all add: initialApp_def rightContainerRef_def)
  from a scroll_echo_guard [of ?s 100 150]
  show ?thesis by simp
qed

text \<open>
  The handlers do not order the echo before the timer.  When the timer callback runs
  first, the latch is clear again and the echoing scroll event is handled like any
  other: it writes the position of the first container back.
\<close>

lemma effects_keep_scroll:
  "syncScroll (runEffects var prev cur) = syncScroll cur"
  "leftPDF (runEffects var prev cur) = leftPDF cur"
  "rightPDF (runEffects var prev cur) = rightPDF cur"
  "rightScrollTop (runEffects var prev cur) = rightScrollTop cur"
  "syncScroll prev = syncScroll cur \<Longrightarrow> scrollDiff (runEffects var prev cur) = scrollDiff cur"
  "syncScroll (panelScrollEffect prev cur) = syncScroll cur"
  "leftPDF (panelScrollEffect prev cur) = leftPDF cur"
  "rightPDF (panelScrollEffect prev cur) = rightPDF cur"
  "rightScrollTop (panelScrollEffect prev cur) = rightScrollTop cur"
  "scrollDiff (panelScrollEffect prev cur) = scrollDiff cur"
  by (simp_all add: runEffects_def scrollDiffEffect_def panelScrollEffect_def sync_def Let_def
      split: option.splits)

lemma step_keeps_scroll:
  "syncScroll (step var ev s) = syncScroll (handle ev s)"
  "leftPDF (step var ev s) = leftPDF (handle ev s)"
  "rightPDF (step var ev s) = rightPDF (handle ev s)"
  "rightScrollTop (step var ev s) = rightScrollTop (handle ev s)"
  "syncScroll (handle ev s) = syncScroll s \<Longrightarrow> scrollDiff (step var ev s) = scrollDiff (handle ev s)"
  by (simp_all add: step_def Let_def effects_keep_scroll)

lemma echo_after_timer:
  assumes "syncScroll s" and "\<not> isSyncing s" and "leftContainerRef s" and "rightContainerRef s"
  shows "writes (run var [UserScroll Left v, Timeout, EchoScroll Right] s)
           = writes s @ [(Right, v + scrollDiff s), (Left, v + scrollDiff s - scrollDiff s)]"
proof -
  let ?l = "s\<lparr> leftScrollTop := v \<rparr>"
  have l: "syncScroll ?l" "\<not> isSyncing ?l" using assms by simp_all
  have refs: "leftContainerRef ?l" "rightContainerRef ?l"
    using assms by (simp_all add: leftContainerRef_def rightContainerRef_def)
  let ?h = "handle (UserScroll Left v) s"
  have h: "syncScroll ?h" "leftPDF ?h = leftPDF s" "rightPDF ?h = rightPDF s"
    "rightScrollTop ?h = v + scrollDiff s" "scrollDiff ?h = scrollDiff s"
    using assms refs
    by (simp_all add: handle_def scrollEvent_def Let_def onLeftScroll_def onLeft_def)
  let ?a = "step var (UserScroll Left v) s"
  note u = step_UserScroll_latch [OF assms(1,2)]
  have a: "isSyncing ?a" "timers ?a = Suc (timers s)"
    "writes ?a = writes s @ [(Right, v + scrollDiff s)]"
    using u(1-3) [of var v] assms(3,4) by simp_all
  have a2: "syncScroll ?a" "leftPDF ?a = leftPDF s" "rightPDF ?a = rightPDF s"
    "rightScrollTop ?a = v + scrollDiff s" "scrollDiff ?a = scrollDiff s"
    using h assms(1) by (simp_all add: step_keeps_scroll)
  let ?t = "step var Timeout ?a"
  have ht: "handle Timeout ?a = ?a\<lparr> isSyncing := False, timers := timers ?a - 1 \<rparr>"
    using a(2) by (simp add: handle_def timeout_def)
  have t: "\<not> isSyncing ?t" "writes ?t = writes ?a" "syncScroll ?t" "leftPDF ?t = leftPDF s"
    "rightPDF ?t = rightPDF s" "rightScrollTop ?t = v + scrollDiff s" "scrollDiff ?t = scrollDiff s"
    using a a2 by (simp_all add: step_keeps step_keeps_scroll ht)
  have "writes (step var (EchoScroll Right) ?t)
      = writes ?t @ [(Left, rightScrollTop ?t - scrollDiff ?t)]"
    using t(1,3,4,5) assms(3,4)
    by (simp add: step_keeps handle_def scrollEvent_keeps onRightScroll_fields
        leftContainerRef_def rightContainerRef_def)
  then show ?thesis
    by (simp add: run_Cons run_Nil t a)
qed

section \<open>The mirror containers of the contrast panel\<close>

lemma overlayRef_iff:
  "overlayLeftRef s = (showContrast s \<and> leftPDF s \<noteq> None)"
  "overlayRightRef s = (showContrast s \<and> rightPDF s \<noteq> None)"
  by (auto simp: overlayLeftRef_def overlayRightRef_def backLayer_def frontLayer_def)

lemma onLeft_fields:
  "overlayLeftScrollTop (onLeft s) =
     (if showContrast s \<and> leftContainerRef s then leftScrollTop s else overlayLeftScrollTop s)"
  "overlayRightScrollTop (onLeft s) = overlayRightScrollTop s"
  "leftScrollTop (onLeft s) = leftScrollTop s"
  "rightScrollTop (onLeft s) = rightScrollTop s"
  "writes (onLeft s) = writes s"
  by (auto simp: onLeft_def overlayRef_iff leftContainerRef_def)

lemma onRight_fields:
  "overlayRightScrollTop (onRight s) =
     (if showContrast s \<and> rightContainerRef s then rightScrollTop s else overlayRightScrollTop s)"
  "overlayLeftScrollTop (onRight s) = overlayLeftScrollTop s"
  "leftScrollTop (onRight s) = leftScrollTop s"
  "rightScrollTop (onRight s) = rightScrollTop s"
  "writes (onRight s) = writes s"
  by (auto simp: onRight_def overlayRef_iff rightContainerRef_def)

lemma sync_fields:
  "leftScrollTop (sync s) = leftScrollTop s"
  "rightScrollTop (sync s) = rightScrollTop s"
  "writes (sync s) = writes s"
  by (simp_all add: sync_def Let_def)

lemma onScroll_keeps:
  "overlayLeftScrollTop (onLeftScroll v s) = overlayLeftScrollTop s"
  "overlayRightScrollTop (onLeftScroll v s) = overlayRightScrollTop s"
  "leftScrollTop (onLeftScroll v s) = leftScrollTop s"
  "showContrast (onLeftScroll v s) = showContrast s"
  "leftPDF (onLeftScroll v s) = leftPDF s"
  "rightPDF (onLeftScroll v s) = rightPDF s"
  "overlayLeftScrollTop (onRightScroll v s) = overlayLeftScrollTop s"
  "overlayRightScrollTop (onRightScroll v s) = overlayRightScrollTop s"
  "rightScrollTop (onRightScroll v s) = rightScrollTop s"
  "showContrast (onRightScroll v s) = showContrast s"
  "leftPDF (onRightScroll v s) = leftPDF s"
  "rightPDF (onRightScroll v s) = rightPDF s"
  by (simp_all add: onLeftScroll_def onRightScroll_def Let_def)

lemma handle_UserScroll_mirrors:
  assumes "showContrast s"
  shows "leftContainerRef s \<Longrightarrow> overlayLeftScrollTop (handle (UserScroll Left v) s) = v"
    and "leftContainerRef s \<Longrightarrow>
           overlayRightScrollTop (handle (UserScroll Left v) s) = overlayRightScrollTop s"
    and "rightContainerRef s \<Longrightarrow> overlayRightScrollTop (handle (UserScroll Right v) s) = v"
    and "rightContainerRef s \<Longrightarrow>
           overlayLeftScrollTop (handle (UserScroll Right v) s) = overlayLeftScrollTop s"
  using assms
  by (simp_all add: handle_def scrollEvent_def Let_def onScroll_keeps onLeft_fields onRight_fields
      leftContainerRef_def rightContainerRef_def)

lemma handle_UserScroll_deps:
  "showContrast (handle (UserScroll sd v) s) = showContrast s"
  "leftPDF (handle (UserScroll sd v) s) = leftPDF s"
  "rightPDF (handle (UserScroll sd v) s) = rightPDF s"
  "leftScale (handle (UserScroll sd v) s) = leftScale s"
  "rightScale (handle (UserScroll sd v) s) = rightScale s"
  by (cases sd;
      simp add: handle_def scrollEvent_def Let_def onLeftScroll_def onRightScroll_def
        onLeft_def onRight_def)+

lemma runEffects_overlay:
  "overlayLeftScrollTop (runEffects var prev cur) = overlayLeftScrollTop cur"
  "overlayRightScrollTop (runEffects var prev cur) = overlayRightScrollTop cur"
  "leftScrollTop (runEffects var prev cur) = leftScrollTop cur"
  "rightScrollTop (runEffects var prev cur) = rightScrollTop cur"
  by (simp_all add: runEffects_def Let_def split: option.splits)

lemma step_UserScroll:
  "step var (UserScroll sd v) s = runEffects var s (handle (UserScroll sd v) s)"
  by (simp add: step_def Let_def panelScrollEffect_def handle_UserScroll_deps)

lemma step_MirrorScroll: "step var (MirrorScroll sd) s = s"
proof -
  have "zoomDiffEffect var s s = None"
    by (cases var) (simp_all add: zoomDiffEffect_def zoomDiffDepsChanged_def)
  then show ?thesis
    by (simp add: step_def handle_def panelScrollEffect_def runEffects_def scrollDiffEffect_def)
qed

text \<open>
  Claim C8.  While the panel is visible, a scroll event on the left primary container
  (the user scrolled it to \<open>v\<close>) leaves the left mirror container at \<open>v\<close> and the right
  mirror container where it was, and symmetrically for the right side; the panel's
  listeners \<^verbatim>\<open>onLeft\<close> and \<^verbatim>\<open>onRight\<close> and its function \<^verbatim>\<open>sync\<close> never assign a primary
  container's \<^verbatim>\<open>scrollTop\<close>, and a scroll event on a mirror container changes nothing.
  (When scroll linking is on, the linked write to the other primary container is followed
  by a scroll event of its own on that container, which then updates that side's mirror.)
\<close>

theorem overlay_mirror_one_way:
  "(showContrast s \<and> leftContainerRef s
      \<longrightarrow> overlayLeftScrollTop (step var (UserScroll Left v) s) = v
        \<and> leftScrollTop (step var (UserScroll Left v) s) = v
        \<and> overlayRightScrollTop (step var (UserScroll Left v) s) = overlayRightScrollTop s)
   \<and> (showContrast s \<and> rightContainerRef s
      \<longrightarrow> overlayRightScrollTop (step var (UserScroll Right v) s) = v
        \<and> rightScrollTop (step var (UserScroll Right v) s) = v
        \<and> overlayLeftScrollTop (step var (UserScroll Right v) s) = overlayLeftScrollTop s)
   \<and> (showContrast s \<and> leftContainerRef s \<longrightarrow> overlayLeftScrollTop (onLeft s) = leftScrollTop s)
   \<and> (showContrast s \<and> rightContainerRef s \<longrightarrow> overlayRightScrollTop (onRight s) = rightScrollTop s)
   \<and> overlayRightScrollTop (onLeft s) = overlayRightScrollTop s
   \<and> overlayLeftScrollTop (onRight s) = overlayLeftScrollTop s
   \<and> leftScrollTop (onLeft s) = leftScrollTop s \<and> rightScrollTop (onLeft s) = rightScrollTop s
   \<and> leftScrollTop (onRight s) = leftScrollTop s \<and> rightScrollTop (onRight s) = rightScrollTop s
   \<and> leftScrollTop (sync s) = leftScrollTop s \<and> rightScrollTop (sync s) = rightScrollTop s
   \<and> writes (onLeft s) = writes s \<and> writes (onRight s) = writes s \<and> writes (sync s) = writes s
   \<and> step var (MirrorScroll sd) s = s"
proof -
  have l: "leftScrollTop (handle (UserScroll Left v) s) = v" if "leftContainerRef s"
    using that
    by (simp add: handle_def scrollEvent_def Let_def onScroll_keeps onLeft_fields leftContainerRef_def)
  have r: "rightScrollTop (handle (UserScroll Right v) s) = v" if "rightContainerRef s"
    using that
    by (simp add: handle_def scrollEvent_def Let_def onScroll_keeps onRight_fields rightContainerRef_def)
  show ?thesis
    using l r handle_UserScroll_mirrors [of s v]
    by (simp add: step_UserScroll runEffects_overlay onLeft_fields onRight_fields sync_fields
        step_MirrorScroll)
qed

text \<open>Both documents loaded, panel visible, right mirror at 7; the left container scrolls to 100.\<close>

theorem overlay_mirror_one_way_witness:
  "showContrast ((initialApp 0)\<lparr> leftPDF := Some ''a.pdf'', rightPDF := Some ''b.pdf'',
        showContrast := True, overlayRightScrollTop := 7 \<rparr>)
   \<and> leftContainerRef ((initialApp 0)\<lparr> leftPDF := Some ''a.pdf'', rightPDF := Some ''b.pdf'',
        showContrast := True, overlayRightScrollTop := 7 \<rparr>)
   \<and> overlayLeftScrollTop (step AppTsx (UserScroll Left 100)
        ((initialApp 0)\<lparr> leftPDF := Some ''a.pdf'', rightPDF := Some ''b.pdf'',
        showContrast := True, overlayRightScrollTop := 7 \<rparr>)) = 100
   \<and> overlayRightScrollTop (step AppTsx (UserScroll Left 100)
        ((initialApp 0)\<lparr> leftPDF := Some ''a.pdf'', rightPDF := Some ''b.pdf'',
        showContrast := True, overlayRightScrollTop := 7 \<rparr>)) = 7"
proof -
  let ?s = "(initialApp 0)\<lparr> leftPDF := Some ''a.pdf'', rightPDF := Some ''b.pdf'',
        showContrast := True, overlayRightScrollTop := 7 \<rparr>"
  have a: "showContrast ?s" "leftContainerRef ?s" "overlayRightScrollTop ?s = 7"
    by (simp_all add: initialApp_def leftContainerRef_def)
  from a overlay_mirror_one_way [of ?s AppTsx 100]
  show ?thesis by simp
qed

section \<open>Resizing and docking the contrast panel\<close>

lemma minRatio_bounds: "0 < px \<Longrightarrow> 0 < minRatio px inner \<and> minRatio px inner \<le> 0.95"
proof (cases "inner = 0")
  case True
  then show ?thesis by (simp add: minRatio_def)
next
  case False
  assume "0 < px"
  with False have q: "0 < px / real inner" by simp
  have "0 < min 0.95 (px / real inner)" using q by (simp only: min_less_iff_conj) simp
  moreover have "min 0.95 (px / real inner) \<le> 0.95" by (rule min.cobounded1)
  ultimately show ?thesis using False by (simp only: minRatio_def if_False)
qed

lemma minRatio_floor:
  assumes "fl \<le> px" and "0 < inner"
  shows "min 0.95 (fl / real inner) \<le> minRatio px inner"
proof -
  from assms have "fl / real inner \<le> px / real inner" by (simp add: divide_right_mono)
  then have "min 0.95 (fl / real inner) \<le> min 0.95 (px / real inner)"
    by (rule min.mono [OF order_refl])
  with assms(2) show ?thesis by (simp only: minRatio_def) simp
qed

lemma onMouseMove_size:
  assumes "resizing p" and "\<not> docked p"
  shows "wRatio (onMouseMove cx cy iw ih p) = minRatio (max 260 (startW p + (cx - startX p))) iw"
    and "hRatio (onMouseMove cx cy iw ih p) = minRatio (max 220 (startH p + (cy - startY p))) ih"
  using assms by (simp_all add: onMouseMove_def Let_def)

lemma onMouseMove_ratios:
  "wRatio (onMouseMove cx cy iw ih p) =
     (if resizing p \<and> \<not> docked p
      then minRatio (max 260 (startW p + (cx - startX p))) iw else wRatio p)"
  "hRatio (onMouseMove cx cy iw ih p) =
     (if resizing p \<and> \<not> docked p
      then minRatio (max 220 (startH p + (cy - startY p))) ih else hRatio p)"
  by (simp_all add: onMouseMove_def Let_def)

lemma panelStep_ratios:
  assumes "ratiosInRange p"
  shows "ratiosInRange (panelStep ev p)"
proof (cases ev)
  case (MouseMove cx cy iw ih)
  have "0 < max 260 (startW p + (cx - startX p))" "0 < max 220 (startH p + (cy - startY p))"
    by simp_all
  from minRatio_bounds [OF this(1), of iw] minRatio_bounds [OF this(2), of ih] assms
  show ?thesis
    unfolding ratiosInRange_def MouseMove panelStep_def panelEvent.case onMouseMove_ratios
    by (simp only: split: if_splits) blast
next
  case (StartResize rect cx cy)
  with assms show ?thesis
    by (cases rect) (auto simp: ratiosInRange_def panelStep_def startResize_def)
qed (use assms in \<open>simp_all add: ratiosInRange_def panelStep_def onMouseDown_def onMouseUp_def
      toggleDocked_def panelZoomOut_def panelZoomIn_def\<close>)

lemma panelRun_ratios: "ratiosInRange p \<Longrightarrow> ratiosInRange (panelRun evs p)"
proof (induction evs arbitrary: p)
  case Nil
  then show ?case by (simp add: panelRun_def)
next
  case (Cons ev evs)
  from Cons.IH [OF panelStep_ratios [OF Cons.prems]]
  show ?case by (simp add: panelRun_def)
qed

lemma initialPanel_ratios: "ratiosInRange initialPanel"
  by (simp add: ratiosInRange_def initialPanel_def)

text \<open>
  Claim C5, amended.  While the panel is resizing and not docked, a pointer move stores
  \<open>wRatio = min 0.95 (max 260 (startW + dx) / innerWidth)\<close> and
  \<open>hRatio = min 0.95 (max 220 (startH + dy) / innerHeight)\<close>; both ratios are positive and
  at most 0.95; each is at least the smaller of 0.95 and its pixel floor divided by the
  viewport length, hence at least the floor's ratio whenever the floor fits under the
  cap (\<open>260 \<le> 0.95 * innerWidth\<close>, \<open>220 \<le> 0.95 * innerHeight\<close>).  After any sequence
  of panel events from the initial state both stored ratios are positive and at most 0.95.
\<close>

theorem resize_sets_capped_ratios:
  assumes "resizing p" and "\<not> docked p"
  shows "panelSize (onMouseMove cx cy iw ih p) =
           (minRatio (max 260 (startW p + (cx - startX p))) iw,
            minRatio (max 220 (startH p + (cy - startY p))) ih)
       \<and> (0 < iw \<longrightarrow> wRatio (onMouseMove cx cy iw ih p)
                       = min 0.95 (max 260 (startW p + (cx - startX p)) / real iw))
       \<and> (0 < ih \<longrightarrow> hRatio (onMouseMove cx cy iw ih p)
                       = min 0.95 (max 220 (startH p + (cy - startY p)) / real ih))
       \<and> 0 < wRatio (onMouseMove cx cy iw ih p) \<and> wRatio (onMouseMove cx cy iw ih p) \<le> 0.95
       \<and> 0 < hRatio (onMouseMove cx cy iw ih p) \<and> hRatio (onMouseMove cx cy iw ih p) \<le> 0.95
       \<and> (0 < iw \<longrightarrow> min 0.95 (260 / real iw) \<le> wRatio (onMouseMove cx cy iw ih p))
       \<and> (0 < ih \<longrightarrow> min 0.95 (220 / real ih) \<le> hRatio (onMouseMove cx cy iw ih p))
       \<and> (260 \<le> 0.95 * real iw \<longrightarrow> 260 / real iw \<le> wRatio (onMouseMove cx cy iw ih p))
       \<and> (220 \<le> 0.95 * real ih \<longrightarrow> 220 / real ih \<le> hRatio (onMouseMove cx cy iw ih p))
       \<and> ratiosInRange (panelRun evs initialPanel)"
proof -
  let ?w = "max 260 (startW p + (cx - startX p))" and ?h = "max 220 (startH p + (cy - startY p))"
  have pos: "0 < ?w" "0 < ?h" "260 \<le> ?w" "220 \<le> ?h" by simp_all
  have fw: "260 / real iw \<le> minRatio ?w iw" if "260 \<le> 0.95 * real iw"
  proof -
    from that have i: "0 < iw" by (cases "iw = 0") simp_all
    then have "260 / real iw \<le> 0.95" using that by (simp add: pos_divide_le_eq)
    then have "min 0.95 (260 / real iw) = 260 / real iw" by simp
    with minRatio_floor [OF pos(3) i] show ?thesis by simp
  qed
  have fh: "220 / real ih \<le> minRatio ?h ih" if "220 \<le> 0.95 * real ih"
  proof -
    from that have i: "0 < ih" by (cases "ih = 0") simp_all
    then have "220 / real ih \<le> 0.95" using that by (simp add: pos_divide_le_eq)
    then have "min 0.95 (220 / real ih) = 220 / real ih" by simp
    with minRatio_floor [OF pos(4) i] show ?thesis by simp
  qed
  have eqw: "minRatio ?w iw = min 0.95 (?w / real iw)" if "0 < iw"
    using that by (simp add: minRatio_def)
  have eqh: "minRatio ?h ih = min 0.95 (?h / real ih)" if "0 < ih"
    using that by (simp add: minRatio_def)
  show ?thesis
    unfolding panelSize_def onMouseMove_size [OF assms]
    using minRatio_bounds [OF pos(1), of iw] minRatio_bounds [OF pos(2), of ih]
      minRatio_floor [OF pos(3), of iw] minRatio_floor [OF pos(4), of ih] fw fh eqw eqh
      panelRun_ratios [OF initialPanel_ratios, of evs]
    by blast
qed

text \<open>
  Claim C5 as stated fails in a small viewport: at 200 by 200 pixels the cap wins, and
  the stored ratios 0.95 are below the floors' ratios 260 / 200 and 220 / 200.
\<close>

theorem resize_below_pixel_floor:
  "resizing (startResize (Some (300, 300)) 0 0 initialPanel)
   \<and> \<not> docked (startResize (Some (300, 300)) 0 0 initialPanel)
   \<and> wRatio (onMouseMove 0 0 200 200 (startResize (Some (300, 300)) 0 0 initialPanel)) = 0.95
   \<and> wRatio (onMouseMove 0 0 200 200 (startResize (Some (300, 300)) 0 0 initialPanel)) < 260 / 200
   \<and> hRatio (onMouseMove 0 0 200 200 (startResize (Some (300, 300)) 0 0 initialPanel)) = 0.95
   \<and> hRatio (onMouseMove 0 0 200 200 (startResize (Some (300, 300)) 0 0 initialPanel)) < 220 / 200"
  by (simp add: onMouseMove_def startResize_def initialPanel_def minRatio_def Let_def)

text \<open>
  A resize started at (10, 10) on a 300 by 300 panel, the pointer moved to (110, 60) in
  a 1000 by 700 viewport: 400 and 350 pixels, the ratios 0.4 and 0.5.
\<close>

theorem resize_sets_capped_ratios_witness:
  "resizing (startResize (Some (300, 300)) 10 10 initialPanel)
   \<and> \<not> docked (startResize (Some (300, 300)) 10 10 initialPanel)
   \<and> panelSize (onMouseMove 110 60 1000 700 (startResize (Some (300, 300)) 10 10 initialPanel))
       = (0.4, 0.5)
   \<and> 260 / 1000 \<le> wRatio (onMouseMove 110 60 1000 700 (startResize (Some (300, 300)) 10 10 initialPanel))"
proof -
  let ?p = "startResize (Some (300, 300)) 10 10 initialPanel"
  have a: "resizing ?p" "\<not> docked ?p" "startW ?p = 300" "startH ?p = 300" "startX ?p = 10"
    "startY ?p = 10"
    by (simp_all add: startResize_def initialPanel_def)
  have m: "minRatio 400 1000 = 0.4" "minRatio 350 700 = 0.5"
    by (simp_all add: minRatio_def)
  from resize_sets_capped_ratios [OF a(1,2), of 110 60 1000 700] a(3-6) m
  show ?thesis using a(1,2) by simp
qed

lemma toggleDocked_fields:
  "docked (toggleDocked p) = (\<not> docked p)"
  "position (toggleDocked p) = position p"
  "panelSize (toggleDocked p) = panelSize p"
  by (simp_all add: toggleDocked_def position_def panelSize_def)

lemma onMouseMove_docked: "docked p \<Longrightarrow> onMouseMove cx cy iw ih p = p"
  by (simp add: onMouseMove_def)

lemma panelStep_docked:
  assumes "docked p" and "ev \<noteq> ToggleDocked"
  shows "docked (panelStep ev p) \<and> position (panelStep ev p) = position p
         \<and> panelSize (panelStep ev p) = panelSize p"
  using assms
  by (cases ev)
    (simp_all add: panelStep_def onMouseDown_def onMouseMove_docked onMouseUp_def
      panelZoomOut_def panelZoomIn_def position_def panelSize_def)

lemma panelRun_docked:
  assumes "docked p" and "ToggleDocked \<notin> set evs"
  shows "docked (panelRun evs p) \<and> position (panelRun evs p) = position p
         \<and> panelSize (panelRun evs p) = panelSize p"
  using assms
proof (induction evs arbitrary: p)
  case Nil
  then show ?case by (simp add: panelRun_def)
next
  case (Cons ev evs)
  from Cons.prems have ne: "ev \<noteq> ToggleDocked" and rest: "ToggleDocked \<notin> set evs" by auto
  from panelStep_docked [OF Cons.prems(1) ne]
  have d: "docked (panelStep ev p)" and g: "position (panelStep ev p) = position p"
    "panelSize (panelStep ev p) = panelSize p" by simp_all
  have "panelRun (ev # evs) p = panelRun evs (panelStep ev p)" by (simp add: panelRun_def)
  with Cons.IH [OF d rest] g show ?case by simp
qed

lemma panelRun_append: "panelRun (xs @ ys) p = panelRun ys (panelRun xs p)"
  by (simp add: panelRun_def)

lemma panelRun_Cons: "panelRun (ev # evs) p = panelRun evs (panelStep ev p)"
  by (simp add: panelRun_def)

text \<open>
  Claim C6.  \<open>toggleDocked\<close> flips \<open>docked\<close> and changes no other field, in particular
  neither the stored position nor the stored size; while the panel is docked a pointer
  move changes nothing; and docking, any pointer and zoom events while docked, and
  undocking again leave the stored position and size exactly as they were before.
\<close>

theorem dock_round_trip:
  "toggleDocked p = p\<lparr> docked := \<not> docked p \<rparr>
   \<and> position (toggleDocked p) = position p \<and> panelSize (toggleDocked p) = panelSize p
   \<and> (docked p \<longrightarrow> onMouseMove cx cy iw ih p = p)
   \<and> (\<not> docked p \<and> ToggleDocked \<notin> set evs
        \<longrightarrow> position (panelRun (ToggleDocked # evs @ [ToggleDocked]) p) = position p
          \<and> panelSize (panelRun (ToggleDocked # evs @ [ToggleDocked]) p) = panelSize p
          \<and> \<not> docked (panelRun (ToggleDocked # evs @ [ToggleDocked]) p))"
proof -
  have rt: "position (panelRun (ToggleDocked # evs @ [ToggleDocked]) p) = position p
          \<and> panelSize (panelRun (ToggleDocked # evs @ [ToggleDocked]) p) = panelSize p
          \<and> \<not> docked (panelRun (ToggleDocked # evs @ [ToggleDocked]) p)"
    if nd: "\<not> docked p" and ne: "ToggleDocked \<notin> set evs"
  proof -
    let ?q = "toggleDocked p"
    have dq: "docked ?q" using nd by (simp add: toggleDocked_fields)
    let ?r = "panelRun evs ?q"
    from panelRun_docked [OF dq ne]
    have r: "docked ?r" "position ?r = position p" "panelSize ?r = panelSize p"
      by (simp_all add: toggleDocked_fields)
    have "panelRun (ToggleDocked # evs @ [ToggleDocked]) p = toggleDocked ?r"
      by (simp add: panelRun_Cons panelRun_append panelStep_def panelRun_def)
    with r show ?thesis by (simp add: toggleDocked_fields)
  qed
  show ?thesis
    using rt by (simp add: toggleDocked_fields onMouseMove_docked) (simp add: toggleDocked_def)
qed

text \<open>
  Docked from the initial state, the user presses the top bar, moves, releases and moves
  again, then undocks: position (24, 24) and size (0.25, 0.25) as before.
\<close>

theorem dock_round_trip_witness:
  "\<not> docked initialPanel
   \<and> ToggleDocked \<notin> set [MouseDown True 30 30, MouseMove 500 400 1000 800, MouseUp,
        MouseMove 10 10 1000 800]
   \<and> position (panelRun (ToggleDocked # [MouseDown True 30 30, MouseMove 500 400 1000 800, MouseUp,
        MouseMove 10 10 1000 800] @ [ToggleDocked]) initialPanel) = (24, 24)
   \<and> panelSize (panelRun (ToggleDocked # [MouseDown True 30 30, MouseMove 500 400 1000 800, MouseUp,
        MouseMove 10 10 1000 800] @ [ToggleDocked]) initialPanel) = (0.25, 0.25)"
proof -
  have a: "\<not> docked initialPanel" "position initialPanel = (24, 24)"
    "panelSize initialPanel = (0.25, 0.25)"
    by (simp_all add: initialPanel_def position_def panelSize_def)
  have b: "ToggleDocked \<notin> set [MouseDown True 30 30, MouseMove 500 400 1000 800, MouseUp,
        MouseMove 10 10 1000 800]" by simp
  from dock_round_trip [of initialPanel _ _ _ _ "[MouseDown True 30 30, MouseMove 500 400 1000 800, MouseUp,
        MouseMove 10 10 1000 800]"] a b
  show ?thesis by simp
qed

section \<open>Document slots\<close>

lemma swapDocuments_fields:
  "leftPDF (swapDocuments now s) = rightPDF s"
  "rightPDF (swapDocuments now s) = leftPDF s"
  by (simp_all add: swapDocuments_def)

lemma removeDocument_fields:
  "leftPDF (removeDocument Left now s) = None"
  "rightPDF (removeDocument Left now s) = rightPDF s"
  "rightPDF (removeDocument Right now s) = None"
  "leftPDF (removeDocument Right now s) = leftPDF s"
  by (simp_all add: removeDocument_def)

text \<open>
  Claim C9 as stated fails for the swap: with a document on each side, both sides still
  hold a document after \<open>swapDocuments\<close>, each the other's.
\<close>

theorem swap_keeps_handles:
  "leftPDF (swapDocuments 1 ((initialApp 0)\<lparr> leftPDF := Some ''a.pdf'', rightPDF := Some ''b.pdf'' \<rparr>))
     = Some ''b.pdf''
   \<and> rightPDF (swapDocuments 1 ((initialApp 0)\<lparr> leftPDF := Some ''a.pdf'', rightPDF := Some ''b.pdf'' \<rparr>))
     = Some ''a.pdf''"
  by (simp add: swapDocuments_fields)

text \<open>
  Claim C9, amended.  After \<open>removeDocument\<close> the side removed holds no file and gets a
  new input key, and the other side keeps its file and its key; \<open>swapDocuments\<close> exchanges
  the two handles, so a side is empty after the swap exactly when the other side was
  empty before, gives both file inputs the new key, and exchanges the left and right text
  of every summary row; \<open>refreshDocuments\<close> clears both handles.
\<close>

theorem remove_clears_swap_exchanges:
  "leftPDF (removeDocument Left now s) = None
   \<and> rightPDF (removeDocument Left now s) = rightPDF s
   \<and> rightPDF (removeDocument Right now s) = None
   \<and> leftPDF (removeDocument Right now s) = leftPDF s
   \<and> leftPDF (swapDocuments now s) = rightPDF s
   \<and> rightPDF (swapDocuments now s) = leftPDF s
   \<and> (leftPDF (swapDocuments now s) = None \<longleftrightarrow> rightPDF s = None)
   \<and> (rightPDF (swapDocuments now s) = None \<longleftrightarrow> leftPDF s = None)
   \<and> leftInputKey (swapDocuments now s) = now
   \<and> rightInputKey (swapDocuments now s) = now
   \<and> summary (swapDocuments now s)
       = map (\<lambda>item. \<lparr> label = label item, left = right item, right = left item \<rparr>) (summary s)
   \<and> leftInputKey (removeDocument Left now s) = now
   \<and> rightInputKey (removeDocument Left now s) = rightInputKey s
   \<and> rightInputKey (removeDocument Right now s) = now
   \<and> leftInputKey (removeDocument Right now s) = leftInputKey s
   \<and> leftPDF (refreshDocuments now s) = None
   \<and> rightPDF (refreshDocuments now s) = None"
proof -
  have keys: "leftInputKey (swapDocuments now s) = now" "rightInputKey (swapDocuments now s) = now"
    "summary (swapDocuments now s)
       = map (\<lambda>item. \<lparr> label = label item, left = right item, right = left item \<rparr>) (summary s)"
    by (simp_all add: swapDocuments_def)
  have removed: "leftInputKey (removeDocument Left now s) = now"
    "rightInputKey (removeDocument Left now s) = rightInputKey s"
    "rightInputKey (removeDocument Right now s) = now"
    "leftInputKey (removeDocument Right now s) = leftInputKey s"
    by (simp_all add: removeDocument_def)
  have refreshed: "leftPDF (refreshDocuments now s) = None" "rightPDF (refreshDocuments now s) = None"
    by (simp_all add: refreshDocuments_def)
  show ?thesis
    by (simp add: swapDocuments_fields removeDocument_fields keys removed refreshed)
qed

text \<open>Only the left side is loaded: removal empties it, the swap moves its file to the right.\<close>

theorem remove_clears_swap_exchanges_witness:
  "leftPDF (removeDocument Left 1 ((initialApp 0)\<lparr> leftPDF := Some ''a.pdf'' \<rparr>)) = None
   \<and> leftPDF (swapDocuments 1 ((initialApp 0)\<lparr> leftPDF := Some ''a.pdf'' \<rparr>)) = None
   \<and> rightPDF (swapDocuments 1 ((initialApp 0)\<lparr> leftPDF := Some ''a.pdf'' \<rparr>)) = Some ''a.pdf''"
proof -
  have "leftPDF ((initialApp 0)\<lparr> leftPDF := Some ''a.pdf'' \<rparr>) = Some ''a.pdf''"
    "rightPDF ((initialApp 0)\<lparr> leftPDF := Some ''a.pdf'' \<rparr>) = None"
    by (simp_all add: initialApp_def)
  with remove_clears_swap_exchanges [of 1 "(initialApp 0)\<lparr> leftPDF := Some ''a.pdf'' \<rparr>"]
  show ?thesis by simp
qed

end
